theory Spec2Isabelle
  imports Complex_Main
begin

section \<open>Python values and exceptions\<close>

text \<open>
  The reward function of \<^verbatim>\<open>examples/reward_function/dapo_graph.py\<close> works on the
  values that \<^verbatim>\<open>json.loads\<close> produces.  They are dynamically typed, so the model has
  one datatype of values and every operation that Python can refuse (attribute
  lookup on a non-dictionary, hashing a list, iterating a number) returns an
  exception as a value.  Dictionaries are association lists with distinct keys in
  insertion order.  Python floats are idealised: a score is a real number and a
  finite JSON literal keeps its exact value (no rounding, no overflow).  A
  character is a code point in the range 0 to 255.
\<close>

datatype py_error =
    TypeError
  | AttributeError
  | ValueError
  | ZeroDivisionError

datatype json =
    JNull
  | JBool bool
  | JInt int
  | JFloat rat
  | JInf bool
  | JNaN
  | JStr string
  | JList "json list"
  | JDict "(string \<times> json) list"

text \<open>Sequencing of computations that may raise.\<close>

fun bnd :: "'e + 'a \<Rightarrow> ('a \<Rightarrow> 'e + 'b) \<Rightarrow> 'e + 'b" where
  "bnd (Inl e) f = Inl e"
| "bnd (Inr x) f = f x"

text \<open>\<^verbatim>\<open>d.get(key, default)\<close>: only a dictionary has the method.\<close>

fun py_get :: "json \<Rightarrow> string \<Rightarrow> json \<Rightarrow> py_error + json" where
  "py_get (JDict kvs) k d = Inr (case map_of kvs k of None \<Rightarrow> d | Some v \<Rightarrow> v)"
| "py_get _ k d = Inl AttributeError"

text \<open>
  Numbers compare by value across \<^verbatim>\<open>bool\<close>, \<^verbatim>\<open>int\<close> and \<^verbatim>\<open>float\<close>.
\<close>

fun num_val :: "json \<Rightarrow> rat option" where
  "num_val (JBool b) = Some (if b then 1 else 0)"
| "num_val (JInt i) = Some (of_int i)"
| "num_val (JFloat r) = Some r"
| "num_val _ = None"

text \<open>
  The comparison Python makes between the elements of two containers: the same
  object, or equal.  The decoder returns one shared object for \<^verbatim>\<open>NaN\<close>, so inside
  a container \<^verbatim>\<open>NaN\<close> is the same as itself.
\<close>

fun py_same :: "json \<Rightarrow> json \<Rightarrow> bool" where
  "py_same (JList xs) (JList ys) = list_all2 py_same xs ys"
| "py_same (JDict a) (JDict b) =
     (length (remdups (map fst a)) = length (remdups (map fst b)) \<and>
      (\<forall>(k, v) \<in> set a. case map_of b k of None \<Rightarrow> False | Some w \<Rightarrow> py_same v w))"
| "py_same a b =
     (case (num_val a, num_val b) of
        (Some x, Some y) \<Rightarrow> x = y
      | (None, None) \<Rightarrow> a = b
      | _ \<Rightarrow> False)"

text \<open>The operator \<^verbatim>\<open>==\<close>: as above, but \<^verbatim>\<open>NaN == NaN\<close> is false.\<close>

definition py_eq :: "json \<Rightarrow> json \<Rightarrow> bool" where
  "py_eq a b = (a \<noteq> JNaN \<and> py_same a b)"

text \<open>
  Hashing: lists and dictionaries are unhashable.  Equal numbers hash alike, so a
  set keeps one representative of \<^verbatim>\<open>True\<close>, \<^verbatim>\<open>1\<close> and \<^verbatim>\<open>1.0\<close>;
  \<open>hkey\<close> is that representative.
\<close>

fun hashable :: "json \<Rightarrow> bool" where
  "hashable (JList _) = False"
| "hashable (JDict _) = False"
| "hashable _ = True"

fun hkey :: "json \<Rightarrow> json" where
  "hkey (JBool b) = JInt (if b then 1 else 0)"
| "hkey (JFloat r) = (if r = of_int \<lfloor>r\<rfloor> then JInt \<lfloor>r\<rfloor> else JFloat r)"
| "hkey v = v"

text \<open>A set display \<^verbatim>\<open>{a, b}\<close> or \<^verbatim>\<open>set(list)\<close>: every element is hashed.\<close>

definition py_set_of :: "json list \<Rightarrow> py_error + json set" where
  "py_set_of xs = (if list_all hashable xs then Inr (hkey ` set xs) else Inl TypeError)"

text \<open>
  Iteration: a list gives its elements, a string its characters, a dictionary its
  keys; nothing else is iterable.
\<close>

fun py_iter :: "json \<Rightarrow> py_error + json list" where
  "py_iter (JList xs) = Inr xs"
| "py_iter (JStr s) = Inr (map (\<lambda>c. JStr [c]) s)"
| "py_iter (JDict kvs) = Inr (map (\<lambda>k. JStr k) (remdups (map fst kvs)))"
| "py_iter _ = Inl TypeError"

definition py_set :: "json \<Rightarrow> py_error + json set" where
  "py_set v = bnd (py_iter v) py_set_of"

definition py_len :: "json \<Rightarrow> py_error + nat" where
  "py_len v = bnd (py_iter v) (\<lambda>xs. Inr (length xs))"

fun py_truthy :: "json \<Rightarrow> bool" where
  "py_truthy JNull = False"
| "py_truthy (JBool b) = b"
| "py_truthy (JInt i) = (i \<noteq> 0)"
| "py_truthy (JFloat r) = (r \<noteq> 0)"
| "py_truthy (JInf _) = True"
| "py_truthy JNaN = True"
| "py_truthy (JStr s) = (s \<noteq> [])"
| "py_truthy (JList xs) = (xs \<noteq> [])"
| "py_truthy (JDict kvs) = (kvs \<noteq> [])"

fun is_list :: "json \<Rightarrow> bool" where
  "is_list (JList _) = True"
| "is_list _ = False"

fun is_dict :: "json \<Rightarrow> bool" where
  "is_dict (JDict _) = True"
| "is_dict _ = False"

fun is_str :: "json \<Rightarrow> bool" where
  "is_str (JStr _) = True"
| "is_str _ = False"

fun is_bool :: "json \<Rightarrow> bool" where
  "is_bool (JBool _) = True"
| "is_bool _ = False"

text \<open>
  \<^verbatim>\<open>key in container\<close> for a string key: a key of a dictionary, an element of
  a list, a substring of a string.
\<close>

fun is_substring :: "string \<Rightarrow> string \<Rightarrow> bool" where
  "is_substring p [] = (p = [])"
| "is_substring p (c # cs) = (take (length p) (c # cs) = p \<or> is_substring p cs)"

fun py_in :: "string \<Rightarrow> json \<Rightarrow> py_error + bool" where
  "py_in k (JDict kvs) = Inr (k \<in> fst ` set kvs)"
| "py_in k (JList xs) = Inr (JStr k \<in> set xs)"
| "py_in k (JStr s) = Inr (is_substring k s)"
| "py_in k _ = Inl TypeError"

text \<open>\<^verbatim>\<open>all(field in d for field in fields)\<close> stops at the first missing field.\<close>

fun all_in :: "string list \<Rightarrow> json \<Rightarrow> py_error + bool" where
  "all_in [] d = Inr True"
| "all_in (f # fs) d = bnd (py_in f d) (\<lambda>b. if b then all_in fs d else Inr False)"

text \<open>\<^verbatim>\<open>x not in S\<close> for a set of strings \<open>S\<close>: the value is hashed first.\<close>

fun not_in_strs :: "json \<Rightarrow> string set \<Rightarrow> py_error + bool" where
  "not_in_strs (JStr s) S = Inr (s \<notin> S)"
| "not_in_strs (JList _) S = Inl TypeError"
| "not_in_strs (JDict _) S = Inl TypeError"
| "not_in_strs _ S = Inr True"

section \<open>Strings and regular expressions\<close>

text \<open>
  White space as \<^verbatim>\<open>\s\<close> and \<^verbatim>\<open>str.strip\<close> see it, for code points up to 255.
\<close>

definition is_space :: "char \<Rightarrow> bool" where
  "is_space c =
     (let n = of_char c :: nat
      in (9 \<le> n \<and> n \<le> 13) \<or> (28 \<le> n \<and> n \<le> 32) \<or> n = 133 \<or> n = 160)"

definition py_strip :: "string \<Rightarrow> string" where
  "py_strip s = rev (dropWhile is_space (rev (dropWhile is_space s)))"

text \<open>
  The fragment of regular expressions the two patterns use: a literal character,
  a greedy starred character class, and a mark where a group opens or closes.
  \<open>match_here\<close> is the backtracking matcher anchored at the start of the text: a
  star first tries to take one more character and gives it back only when the
  rest of the pattern fails.  The result lists the text remaining at each mark.
\<close>

datatype atom = Lit char | Star "char \<Rightarrow> bool" | Mark

fun match_here :: "atom list \<Rightarrow> string \<Rightarrow> string list option" where
  "match_here [] s = Some []"
| "match_here (Mark # p) s = map_option ((#) s) (match_here p s)"
| "match_here (Lit c # p) [] = None"
| "match_here (Lit c # p) (x # xs) = (if x = c then match_here p xs else None)"
| "match_here (Star f # p) [] = match_here p []"
| "match_here (Star f # p) (x # xs) =
     (if f x
      then (case match_here (Star f # p) xs of
              Some m \<Rightarrow> Some m
            | None \<Rightarrow> match_here p (x # xs))
      else match_here p (x # xs))"

text \<open>\<^verbatim>\<open>re.search\<close>: the match at the leftmost position that has one.\<close>

fun re_search :: "atom list \<Rightarrow> string \<Rightarrow> string list option" where
  "re_search p [] = match_here p []"
| "re_search p (x # xs) =
     (case match_here p (x # xs) of
        Some m \<Rightarrow> Some m
      | None \<Rightarrow> re_search p xs)"

text \<open>The text of the group delimited by two marks.\<close>

fun group1 :: "string list \<Rightarrow> string" where
  "group1 [a, b] = take (length a - length b) a"
| "group1 _ = []"

text \<open>\<^verbatim>\<open>Answer\s*:\s*\{\<close>\<close>

definition answer_label_re :: "atom list" where
  "answer_label_re =
     map Lit ''Answer'' @ [Star is_space, Lit CHR '':'', Star is_space, Lit CHR ''{'']"

text \<open>\<^verbatim>\<open>Answer\s*:\s*(\{.*\})\<close> with \<^verbatim>\<open>re.DOTALL\<close>\<close>

definition answer_json_re :: "atom list" where
  "answer_json_re =
     map Lit ''Answer'' @
     [Star is_space, Lit CHR '':'', Star is_space,
      Mark, Lit CHR ''{'', Star (\<lambda>c. True), Lit CHR ''}'', Mark]"

section \<open>The JSON decoder\<close>

text \<open>
  \<^verbatim>\<open>json.loads\<close> of the standard library, as its scanner reads a text: white
  space is blank, tab, line feed and carriage return; a string is strict (no
  raw control character); a number follows
  \<^verbatim>\<open>-?(0|[1-9]\d*)(\.\d+)?([eE][-+]?\d+)?\<close>; the constants \<^verbatim>\<open>NaN\<close>,
  \<^verbatim>\<open>Infinity\<close> and \<^verbatim>\<open>-Infinity\<close> are accepted; a repeated key keeps its first
  position and its last value.  \<open>None\<close> stands for \<^verbatim>\<open>JSONDecodeError\<close>.  An
  escape \<^verbatim>\<open>\uXXXX\<close> above code point 255 is outside the character range of the
  model and reported as undecodable.
\<close>

definition json_ws :: "char \<Rightarrow> bool" where
  "json_ws c = (c = CHR '' '' \<or> c = CHR 0x09 \<or> c = CHR 0x0A \<or> c = CHR 0x0D)"

definition is_digit :: "char \<Rightarrow> bool" where
  "is_digit c = (let n = of_char c :: nat in 48 \<le> n \<and> n \<le> 57)"

definition digits_val :: "string \<Rightarrow> nat" where
  "digits_val ds = foldl (\<lambda>a c. 10 * a + (of_char c - 48)) 0 ds"

definition hex_val :: "char \<Rightarrow> nat option" where
  "hex_val c =
     (let n = of_char c :: nat
      in if 48 \<le> n \<and> n \<le> 57 then Some (n - 48)
         else if 65 \<le> n \<and> n \<le> 70 then Some (n - 55)
         else if 97 \<le> n \<and> n \<le> 102 then Some (n - 87)
         else None)"

fun hex4 :: "string \<Rightarrow> nat option" where
  "hex4 [a, b, c, d] =
     (case (hex_val a, hex_val b, hex_val c, hex_val d) of
        (Some x, Some y, Some z, Some w) \<Rightarrow> Some (((x * 16 + y) * 16 + z) * 16 + w)
      | _ \<Rightarrow> None)"
| "hex4 _ = None"

definition unescape :: "char \<Rightarrow> char option" where
  "unescape e =
     (if e = CHR 0x22 then Some (CHR 0x22)
      else if e = CHR 0x5C then Some (CHR 0x5C)
      else if e = CHR ''/'' then Some (CHR ''/'')
      else if e = CHR ''b'' then Some (CHR 0x08)
      else if e = CHR ''f'' then Some (CHR 0x0C)
      else if e = CHR ''n'' then Some (CHR 0x0A)
      else if e = CHR ''r'' then Some (CHR 0x0D)
      else if e = CHR ''t'' then Some (CHR 0x09)
      else None)"

text \<open>The text after an opening quote: the decoded string and what follows it.\<close>

fun scanstring :: "string \<Rightarrow> (string \<times> string) option" where
  "scanstring [] = None"
| "scanstring (c # cs) =
     (if c = CHR 0x22 then Some ([], cs)
      else if c = CHR 0x5C then
        (case cs of
           [] \<Rightarrow> None
         | e # es \<Rightarrow>
             if e = CHR ''u'' then
               (case hex4 (take 4 es) of
                  None \<Rightarrow> None
                | Some n \<Rightarrow>
                    if n < 256
                    then map_option (apfst ((#) (char_of n))) (scanstring (drop 4 es))
                    else None)
             else
               (case unescape e of
                  None \<Rightarrow> None
                | Some ch \<Rightarrow> map_option (apfst ((#) ch)) (scanstring es)))
      else if (of_char c :: nat) < 32 then None
      else map_option (apfst ((#) c)) (scanstring cs))"

text \<open>A number at the start of the text, if there is one.\<close>

definition scan_exponent :: "string \<Rightarrow> (int \<times> string) option" where
  "scan_exponent s =
     (case s of
        [] \<Rightarrow> None
      | e # r \<Rightarrow>
          if e = CHR ''e'' \<or> e = CHR ''E'' then
            (let (neg, r1) =
                   (case r of
                      [] \<Rightarrow> (False, r)
                    | g # r' \<Rightarrow>
                        if g = CHR ''-'' then (True, r')
                        else if g = CHR ''+'' then (False, r')
                        else (False, r));
                 ds = takeWhile is_digit r1
             in if ds = [] then None
                else Some ((if neg then - int (digits_val ds) else int (digits_val ds)),
                           drop (length ds) r1))
          else None)"

definition scan_number :: "string \<Rightarrow> (json \<times> string) option" where
  "scan_number s =
     (let (neg, s1) =
            (case s of
               [] \<Rightarrow> (False, s)
             | c # r \<Rightarrow> if c = CHR ''-'' then (True, r) else (False, s))
      in case s1 of
           [] \<Rightarrow> None
         | d # r \<Rightarrow>
             if \<not> is_digit d then None
             else
               let ip = (if d = CHR ''0'' then [d] else takeWhile is_digit s1);
                   s2 = drop (length ip) s1;
                   fp = (case s2 of
                           [] \<Rightarrow> []
                         | c # r2 \<Rightarrow> if c = CHR ''.'' then takeWhile is_digit r2 else []);
                   s3 = (if fp = [] then s2 else drop (Suc (length fp)) s2);
                   sgn = (if neg then - 1 else 1)
               in case scan_exponent s3 of
                    None \<Rightarrow>
                      if fp = [] then Some (JInt (sgn * int (digits_val ip)), s3)
                      else Some (JFloat ((of_int sgn * of_nat (digits_val (ip @ fp)))
                                           / (10 ^ length fp)), s3)
                  | Some (ex, s4) \<Rightarrow>
                      let m = (of_int sgn * of_nat (digits_val (ip @ fp))) / (10 ^ length fp)
                      in Some (JFloat (if 0 \<le> ex then m * (10 ^ nat ex)
                                       else m / (10 ^ nat (- ex))), s4))"

definition starts_with :: "string \<Rightarrow> string \<Rightarrow> bool" where
  "starts_with p s = (take (length p) s = p)"

text \<open>\<^verbatim>\<open>dict(pairs)\<close>, one pair at a time.\<close>

fun dict_put :: "(string \<times> json) list \<Rightarrow> string \<Rightarrow> json \<Rightarrow> (string \<times> json) list" where
  "dict_put [] k v = [(k, v)]"
| "dict_put ((k', v') # kvs) k v =
     (if k' = k then (k, v) # kvs else (k', v') # dict_put kvs k v)"

text \<open>
  The scanner.  \<open>json_array\<close> starts at an element and \<open>json_object\<close> at the
  quote of a key, each with what it has read so far.  Every value takes at least
  one character; the tests on lengths say so where the recursion needs it, and
  never fail.
\<close>

function scan_once :: "string \<Rightarrow> (json \<times> string) option"
  and json_array :: "string \<Rightarrow> json list \<Rightarrow> (json \<times> string) option"
  and json_object :: "string \<Rightarrow> (string \<times> json) list \<Rightarrow> (json \<times> string) option"
where
  "scan_once [] = None"
| "scan_once (c # cs) =
     (if c = CHR 0x22 then
        (case scanstring cs of
           None \<Rightarrow> None
         | Some (t, r) \<Rightarrow> Some (JStr t, r))
      else if c = CHR ''{'' then
        (case dropWhile json_ws cs of
           [] \<Rightarrow> None
         | q # r \<Rightarrow>
             if q = CHR ''}'' then Some (JDict [], r)
             else if q = CHR 0x22 then json_object (q # r) []
             else None)
      else if c = CHR ''['' then
        (case dropWhile json_ws cs of
           [] \<Rightarrow> None
         | q # r \<Rightarrow>
             if q = CHR '']'' then Some (JList [], r)
             else json_array (q # r) [])
      else if starts_with ''null'' (c # cs) then Some (JNull, drop 3 cs)
      else if starts_with ''true'' (c # cs) then Some (JBool True, drop 3 cs)
      else if starts_with ''false'' (c # cs) then Some (JBool False, drop 4 cs)
      else
        (case scan_number (c # cs) of
           Some res \<Rightarrow> Some res
         | None \<Rightarrow>
             if starts_with ''NaN'' (c # cs) then Some (JNaN, drop 2 cs)
             else if starts_with ''Infinity'' (c # cs) then Some (JInf True, drop 7 cs)
             else if starts_with ''-Infinity'' (c # cs) then Some (JInf False, drop 8 cs)
             else None))"
| "json_array s acc =
     (case scan_once s of
        None \<Rightarrow> None
      | Some (v, r) \<Rightarrow>
          if length r < length s then
            (case dropWhile json_ws r of
               [] \<Rightarrow> None
             | q # r' \<Rightarrow>
                 if q = CHR '']'' then Some (JList (acc @ [v]), r')
                 else if q = CHR '','' then json_array (dropWhile json_ws r') (acc @ [v])
                 else None)
          else None)"
| "json_object s acc =
     (case s of
        [] \<Rightarrow> None
      | q # s1 \<Rightarrow>
          if q \<noteq> CHR 0x22 then None
          else
            (case scanstring s1 of
               None \<Rightarrow> None
             | Some (key, r) \<Rightarrow>
                 (case dropWhile json_ws r of
                    [] \<Rightarrow> None
                  | c # r1 \<Rightarrow>
                      if c \<noteq> CHR '':'' then None
                      else if length r1 < length s then
                        (case scan_once (dropWhile json_ws r1) of
                           None \<Rightarrow> None
                         | Some (v, r2) \<Rightarrow>
                             if length r2 < length s then
                               (case dropWhile json_ws r2 of
                                  [] \<Rightarrow> None
                                | d # r3 \<Rightarrow>
                                    if d = CHR ''}'' then Some (JDict (dict_put acc key v), r3)
                                    else if d = CHR '','' then
                                      json_object (dropWhile json_ws r3) (dict_put acc key v)
                                    else None)
                             else None)
                      else None)))"
  by pat_completeness auto
termination
proof -
  have A: "\<And>P (cs :: string) q r. dropWhile P cs = q # r \<Longrightarrow> length r < length cs"
  proof -
    fix P and cs :: string and q r
    assume "dropWhile P cs = q # r"
    then have "Suc (length r) = length (dropWhile P cs)" by simp
    also have "\<dots> \<le> length cs" by (rule length_dropWhile_le)
    finally show "length r < length cs" by simp
  qed
  have B: "\<And>P (cs :: string) n. length cs < n \<Longrightarrow> length (dropWhile P cs) < n"
    by (rule le_less_trans [OF length_dropWhile_le])
  show ?thesis
    by (relation "inv_image (less_than <*lex*> less_than)
          (\<lambda>x. case x of
             Inl s \<Rightarrow> (length s, 0::nat)
           | Inr (Inl (s, acc)) \<Rightarrow> (length s, 1)
           | Inr (Inr (s, acc)) \<Rightarrow> (length s, 1))")
       (auto dest!: A intro!: B)
qed

definition json_loads :: "string \<Rightarrow> json option" where
  "json_loads s =
     (case scan_once (dropWhile json_ws s) of
        None \<Rightarrow> None
      | Some (v, r) \<Rightarrow> if dropWhile json_ws r = [] then Some v else None)"

section \<open>The reward function\<close>

definition VALID_ACTION_TYPES :: "string set" where
  "VALID_ACTION_TYPES =
     {''press'', ''rotate'', ''pull'', ''open'', ''push'', ''close'', ''insert''}"

definition VALID_FUNCTIONAL_RELATIONSHIPS :: "string set" where
  "VALID_FUNCTIONAL_RELATIONSHIPS =
     {''openorclose'', ''adjust'', ''control'', ''providepower'', ''activate''}"

definition VALID_SPATIAL_RELATIONS :: "string set" where
  "VALID_SPATIAL_RELATIONS =
     {''left_of'', ''right_of'', ''in_front_of'', ''behind'', ''higher_than'',
      ''lower_than'', ''close'', ''far'', ''touching''}"

text \<open>
  \<open>extract_answer_json\<close> returns Python's \<^verbatim>\<open>None\<close>, which is also what the
  decoder returns for \<^verbatim>\<open>null\<close>, when nothing matches or the text does not decode.
\<close>

definition extract_answer_json :: "string \<Rightarrow> json" where
  "extract_answer_json response =
     (case re_search answer_json_re response of
        None \<Rightarrow> JNull
      | Some m \<Rightarrow>
          (case json_loads (py_strip (group1 m)) of
             None \<Rightarrow> JNull
           | Some v \<Rightarrow> v))"

text \<open>The loop over \<^verbatim>\<open>spatial_rels\<close>: true when every relation is a valid one.\<close>

fun rels_valid :: "json list \<Rightarrow> py_error + bool" where
  "rels_valid [] = Inr True"
| "rels_valid (rel # rels) =
     bnd (not_in_strs rel VALID_SPATIAL_RELATIONS)
       (\<lambda>bad. if bad then Inr False else rels_valid rels)"

text \<open>The body of the loop over the edges: true when the edge passes every check.\<close>

definition edge_valid :: "json \<Rightarrow> py_error + bool" where
  "edge_valid edge =
     (if \<not> is_dict edge then Inr False
      else
        bnd (all_in [''functional_relationship'', ''object1'', ''object2'',
                     ''spatial_relations'', ''is_touching''] edge)
          (\<lambda>present. if \<not> present then Inr False
           else
             bnd (py_get edge ''functional_relationship'' JNull)
               (\<lambda>fr. bnd (not_in_strs fr VALID_FUNCTIONAL_RELATIONSHIPS)
                 (\<lambda>bad. if bad then Inr False
                  else
                    bnd (py_get edge ''spatial_relations'' (JList []))
                      (\<lambda>spatial_rels. if \<not> is_list spatial_rels then Inr False
                       else
                         bnd (py_iter spatial_rels)
                           (\<lambda>rels. bnd (rels_valid rels)
                             (\<lambda>ok. if \<not> ok then Inr False
                              else
                                bnd (py_get edge ''is_touching'' JNull)
                                  (\<lambda>t. Inr (is_bool t)))))))))"

fun edges_valid :: "json list \<Rightarrow> py_error + bool" where
  "edges_valid [] = Inr True"
| "edges_valid (edge # edges) =
     bnd (edge_valid edge) (\<lambda>ok. if ok then edges_valid edges else Inr False)"

definition format_reward :: "string \<Rightarrow> py_error + real" where
  "format_reward response =
     (if re_search answer_label_re response = None then Inr 0
      else
        let answer_json = extract_answer_json response
        in if answer_json = JNull then Inr 0
           else
             bnd (all_in [''task_instruction'', ''nodes'', ''edges'', ''action_type'',
                          ''function_type''] answer_json)
               (\<lambda>present. if \<not> present then Inr 0
                else
                  bnd (py_get answer_json ''nodes'' JNull)
                    (\<lambda>nodes. if \<not> is_list nodes then Inr 0
                     else
                       bnd (py_get answer_json ''edges'' JNull)
                         (\<lambda>edges. if \<not> is_list edges then Inr 0
                          else
                            bnd (py_get answer_json ''task_instruction'' JNull)
                              (\<lambda>ti. if \<not> is_str ti then Inr 0
                               else
                                 bnd (py_get answer_json ''action_type'' JNull)
                                   (\<lambda>action. bnd (not_in_strs action VALID_ACTION_TYPES)
                                     (\<lambda>bad. if bad then Inr 0
                                      else
                                        bnd (py_get answer_json ''edges'' (JList []))
                                          (\<lambda>es. bnd (py_iter es)
                                            (\<lambda>el. bnd (edges_valid el)
                                              (\<lambda>ok. Inr (if ok then 1 else 0)))))))))))"

text \<open>
  Intersection over union, as both the node and the spatial comparison compute
  it from two sets.
\<close>

definition iou :: "json set \<Rightarrow> json set \<Rightarrow> real" where
  "iou p g =
     (let intersection = card (p \<inter> g);
          union = card (p \<union> g)
      in if union > 0 then real intersection / real union else 0)"

definition calculate_edge_similarity :: "json \<Rightarrow> json \<Rightarrow> py_error + real" where
  "calculate_edge_similarity pred_edge gt_edge =
     bnd (py_get pred_edge ''object1'' JNull) (\<lambda>p1.
     bnd (py_get pred_edge ''object2'' JNull) (\<lambda>p2.
     bnd (py_set_of [p1, p2]) (\<lambda>pred_objects.
     bnd (py_get gt_edge ''object1'' JNull) (\<lambda>g1.
     bnd (py_get gt_edge ''object2'' JNull) (\<lambda>g2.
     bnd (py_set_of [g1, g2]) (\<lambda>gt_objects.
     bnd (py_get pred_edge ''functional_relationship'' JNull) (\<lambda>pf.
     bnd (py_get gt_edge ''functional_relationship'' JNull) (\<lambda>gf.
     bnd (py_get pred_edge ''spatial_relations'' (JList [])) (\<lambda>ps.
     bnd (py_set ps) (\<lambda>pred_spatial.
     bnd (py_get gt_edge ''spatial_relations'' (JList [])) (\<lambda>gs.
     bnd (py_set gs) (\<lambda>gt_spatial.
     bnd (py_get pred_edge ''is_touching'' JNull) (\<lambda>pt.
     bnd (py_get gt_edge ''is_touching'' JNull) (\<lambda>gt.
       Inr (((if pred_objects = gt_objects then 1 else 0)
             + (if py_eq pf gf then 1 else 0)
             + (if gt_spatial \<noteq> {} then iou pred_spatial gt_spatial else 0)
             + (if py_eq pt gt then 1 else 0)) / 4)))))))))))))))"

text \<open>The inner loop: the best similarity of a ground-truth edge to a predicted one.\<close>

fun best_match_loop :: "real \<Rightarrow> json list \<Rightarrow> json \<Rightarrow> py_error + real" where
  "best_match_loop best_match [] gt_edge = Inr best_match"
| "best_match_loop best_match (pred_edge # pred_edges) gt_edge =
     bnd (calculate_edge_similarity pred_edge gt_edge)
       (\<lambda>edge_sim. best_match_loop (max best_match edge_sim) pred_edges gt_edge)"

text \<open>The outer loop; the predicted edges are iterated anew for each ground-truth edge.\<close>

fun edge_score_loop :: "real \<Rightarrow> json \<Rightarrow> json list \<Rightarrow> py_error + real" where
  "edge_score_loop edge_score pred_edges [] = Inr edge_score"
| "edge_score_loop edge_score pred_edges (gt_edge # gt_edges) =
     bnd (py_iter pred_edges) (\<lambda>pl.
     bnd (best_match_loop 0 pl gt_edge) (\<lambda>best_match.
       edge_score_loop (edge_score + best_match) pred_edges gt_edges))"

text \<open>The fifth component of the graph similarity, from the two \<^verbatim>\<open>edges\<close> values.\<close>

definition edges_similarity :: "json \<Rightarrow> json \<Rightarrow> py_error + real" where
  "edges_similarity pred_edges gt_edges =
     (if py_truthy gt_edges then
        bnd (py_iter gt_edges) (\<lambda>gl.
        bnd (edge_score_loop 0 pred_edges gl) (\<lambda>total.
        bnd (py_len gt_edges) (\<lambda>n.
          if n = 0 then Inl ZeroDivisionError
          else
            bnd (py_len pred_edges) (\<lambda>m.
              let edge_score = total / real n
              in if m > n
                 then let penalty = (real m - real n) * (1 / 10)
                      in Inr (max 0 (edge_score - penalty))
                 else Inr edge_score))))
      else Inr 0)"

definition calculate_graph_similarity :: "json \<Rightarrow> json \<Rightarrow> py_error + real" where
  "calculate_graph_similarity pred_json gt_json =
     (if pred_json = JNull \<or> gt_json = JNull then Inr 0
      else
        bnd (py_get pred_json ''task_instruction'' JNull) (\<lambda>pti.
        bnd (py_get gt_json ''task_instruction'' JNull) (\<lambda>gti.
        bnd (py_get pred_json ''action_type'' JNull) (\<lambda>pat.
        bnd (py_get gt_json ''action_type'' JNull) (\<lambda>gat.
        bnd (py_get pred_json ''function_type'' JNull) (\<lambda>pft.
        bnd (py_get gt_json ''function_type'' JNull) (\<lambda>gft.
        bnd (py_get pred_json ''nodes'' (JList [])) (\<lambda>pn.
        bnd (py_set pn) (\<lambda>pred_nodes.
        bnd (py_get gt_json ''nodes'' (JList [])) (\<lambda>gn.
        bnd (py_set gn) (\<lambda>gt_nodes.
        bnd (py_get pred_json ''edges'' (JList [])) (\<lambda>pred_edges.
        bnd (py_get gt_json ''edges'' (JList [])) (\<lambda>gt_edges.
        bnd (edges_similarity pred_edges gt_edges) (\<lambda>edge_score.
          Inr (((if py_eq pti gti then 1 else 0)
                + (if py_eq pat gat then 1 else 0)
                + (if py_eq pft gft then 1 else 0)
                + (if gt_nodes \<noteq> {} then iou pred_nodes gt_nodes else 0)
                + edge_score) / 5)))))))))))))))"

text \<open>The thresholds that turn a similarity into the accuracy reward.\<close>

definition similarity_reward :: "real \<Rightarrow> real" where
  "similarity_reward similarity =
     (if similarity \<ge> 98 / 100 then 1
      else if similarity \<ge> 85 / 100 then 8 / 10
      else if similarity \<ge> 7 / 10 then 5 / 10
      else if similarity \<ge> 5 / 10 then 2 / 10
      else if similarity \<ge> 3 / 10 then 0
      else - (5 / 10))"

definition accuracy_reward :: "string \<Rightarrow> string \<Rightarrow> py_error + real" where
  "accuracy_reward response ground_truth =
     (let pred_json = extract_answer_json response
      in case json_loads (py_strip ground_truth) of
           None \<Rightarrow> Inr (- (5 / 10))
         | Some gt_json \<Rightarrow>
             if pred_json = JNull then Inr (- (5 / 10))
             else
               bnd (format_reward response) (\<lambda>f.
                 if f = 0 then Inr 0
                 else
                   bnd (calculate_graph_similarity pred_json gt_json) (\<lambda>similarity.
                     Inr (similarity_reward similarity))))"

definition soft_overlong_punishment :: "int \<Rightarrow> int \<Rightarrow> int \<Rightarrow> py_error + real" where
  "soft_overlong_punishment response_length max_response_length overlong_buffer_length =
     (let expected_len = max_response_length - overlong_buffer_length
      in if response_length \<le> expected_len then Inr 0
         else if response_length \<le> max_response_length then
           (if overlong_buffer_length = 0 then Inl ZeroDivisionError
            else Inr (real_of_int (expected_len - response_length)
                        / real_of_int overlong_buffer_length))
         else Inr (- 1))"

record reward_input =
  response :: string
  ground_truth :: string

record reward_record =
  overall :: real
  format :: real
  accuracy :: real
  overlong :: real
  accuracy_normalized :: real

text \<open>The argument of \<open>compute_score\<close> is a list of samples or some other value.\<close>

datatype reward_inputs = Batch "reward_input list" | NotAList

text \<open>The body of the loop over the samples.\<close>

definition score_sample :: "int \<Rightarrow> int \<Rightarrow> real \<Rightarrow> real \<Rightarrow> reward_input \<Rightarrow> py_error + reward_record" where
  "score_sample max_response_length overlong_buffer_length overlong_penalty_factor
       format_weight reward_input =
     bnd (format_reward (response reward_input)) (\<lambda>format_score.
     bnd (accuracy_reward (response reward_input) (ground_truth reward_input)) (\<lambda>accuracy_score.
     bnd (soft_overlong_punishment (int (length (response reward_input)))
            max_response_length overlong_buffer_length) (\<lambda>overlong_score.
       Inr \<lparr> overall = format_weight * format_score
                        + (1 - format_weight) * accuracy_score
                        + overlong_score * overlong_penalty_factor,
             format = format_score,
             accuracy = accuracy_score,
             overlong = overlong_score,
             accuracy_normalized = (5 / 10) * (accuracy_score + 1) \<rparr>)))"

fun score_loop :: "int \<Rightarrow> int \<Rightarrow> real \<Rightarrow> real \<Rightarrow> reward_input list \<Rightarrow> py_error + reward_record list" where
  "score_loop mx buf fac fw [] = Inr []"
| "score_loop mx buf fac fw (reward_input # rest) =
     bnd (score_sample mx buf fac fw reward_input) (\<lambda>r.
     bnd (score_loop mx buf fac fw rest) (\<lambda>rs. Inr (r # rs)))"

definition compute_score :: "reward_inputs \<Rightarrow> int \<Rightarrow> int \<Rightarrow> real \<Rightarrow> real \<Rightarrow> py_error + reward_record list" where
  "compute_score reward_inputs max_response_length overlong_buffer_length
       overlong_penalty_factor format_weight =
     (case reward_inputs of
        NotAList \<Rightarrow> Inl ValueError
      | Batch samples \<Rightarrow>
          score_loop max_response_length overlong_buffer_length overlong_penalty_factor
            format_weight samples)"

section \<open>Values used in the statements\<close>

text \<open>
  The thresholds of the accuracy reward as the specification lists them, each
  bucket with its lower bound included and its upper bound excluded.
\<close>

definition spec_accuracy_bucket :: "real \<Rightarrow> real \<Rightarrow> bool" where
  "spec_accuracy_bucket s a =
     ((98 / 100 \<le> s \<and> a = 1)
      \<or> (85 / 100 \<le> s \<and> s < 98 / 100 \<and> a = 8 / 10)
      \<or> (70 / 100 \<le> s \<and> s < 85 / 100 \<and> a = 5 / 10)
      \<or> (50 / 100 \<le> s \<and> s < 70 / 100 \<and> a = 2 / 10)
      \<or> (30 / 100 \<le> s \<and> s < 50 / 100 \<and> a = 0)
      \<or> (s < 30 / 100 \<and> a = - (5 / 10)))"

text \<open>The reference fixture of the tests, and the same graph with another action.\<close>

definition toaster_gt :: string where
  \<open>toaster_gt = ''{"task_instruction":"Power on the toaster.","nodes":["electric outlet","toaster"],"edges":[{"functional_relationship":"providepower","object1":"electric outlet","object2":"toaster","spatial_relations":["higher_than","right_of","in_front_of","close"],"is_touching":false}],"action_type":"insert","function_type":"power_supply"}''\<close>

definition toaster_press :: string where
  \<open>toaster_press = ''{"task_instruction":"Power on the toaster.","nodes":["electric outlet","toaster"],"edges":[{"functional_relationship":"providepower","object1":"electric outlet","object2":"toaster","spatial_relations":["higher_than","right_of","in_front_of","close"],"is_touching":false}],"action_type":"press","function_type":"power_supply"}''\<close>

definition exact_response :: string where
  "exact_response = ''Answer: '' @ toaster_gt"

definition press_response :: string where
  "press_response =
     ''I see an outlet and toaster that need to be connected.'' @ [CHR 0x0A, CHR 0x0A]
     @ ''Answer: '' @ toaster_press"

definition no_answer_response :: string where
  "no_answer_response = ''I analyze the image and see an outlet and toaster.''"

text \<open>A small graph, as text and as the value it decodes to.\<close>

definition small_payload :: string where
  \<open>small_payload = ''{"task_instruction":"t","nodes":[],"edges":[],"action_type":"press","function_type":"f"}''\<close>

definition small_graph :: json where
  "small_graph =
     JDict [(''task_instruction'', JStr ''t''), (''nodes'', JList []), (''edges'', JList []),
            (''action_type'', JStr ''press''), (''function_type'', JStr ''f'')]"

text \<open>A payload whose \<^verbatim>\<open>action_type\<close> is a list.\<close>

definition unhashable_action_response :: string where
  \<open>unhashable_action_response = ''Answer: {"task_instruction":"t","nodes":[],"edges":[],"action_type":[],"function_type":"f"}''\<close>

text \<open>
  A payload with a number for \<^verbatim>\<open>function_type\<close>, nodes that are not strings and
  objects that are not strings.
\<close>

definition untyped_response :: string where
  \<open>untyped_response = ''Answer: {"task_instruction":"t","nodes":[1,null,["x"]],"edges":[{"functional_relationship":"control","object1":1,"object2":null,"spatial_relations":[],"is_touching":true}],"action_type":"press","function_type":42}''\<close>

text \<open>
  An edge of the data model: three strings, a list of strings and a boolean.
\<close>

definition mk_edge :: "string \<Rightarrow> string \<Rightarrow> string \<Rightarrow> string list \<Rightarrow> bool \<Rightarrow> json" where
  "mk_edge fr o1 o2 rels touching =
     JDict [(''functional_relationship'', JStr fr),
            (''object1'', JStr o1),
            (''object2'', JStr o2),
            (''spatial_relations'', JList (map JStr rels)),
            (''is_touching'', JBool touching)]"

text \<open>The same edge with the values of \<^verbatim>\<open>object1\<close> and \<^verbatim>\<open>object2\<close> exchanged.\<close>

definition swap_key :: "string \<Rightarrow> string" where
  "swap_key k =
     (if k = ''object1'' then ''object2'' else if k = ''object2'' then ''object1'' else k)"

fun swap_objects :: "json \<Rightarrow> json" where
  "swap_objects (JDict kvs) = JDict (map (\<lambda>(k, v). (swap_key k, v)) kvs)"
| "swap_objects v = v"

text \<open>
  The graph that \<open>toaster_gt\<close> decodes to, and two edges that agree in nothing.
\<close>

definition toaster_graph :: json where
  "toaster_graph =
     JDict [(''task_instruction'', JStr ''Power on the toaster.''),
            (''nodes'', JList [JStr ''electric outlet'', JStr ''toaster'']),
            (''edges'', JList [mk_edge ''providepower'' ''electric outlet'' ''toaster''
                [''higher_than'', ''right_of'', ''in_front_of'', ''close''] False]),
            (''action_type'', JStr ''insert''),
            (''function_type'', JStr ''power_supply'')]"

definition edge_ab :: json where
  "edge_ab = mk_edge ''control'' ''a'' ''b'' [''close''] True"

definition edge_cd :: json where
  "edge_cd = mk_edge ''adjust'' ''c'' ''d'' [''far''] False"

text \<open>
  The data model of the specification: an edge has three strings, a list of
  strings and a boolean; a scene graph has three strings, a list of strings and a
  list of edges.
\<close>

definition has_str :: "json \<Rightarrow> string \<Rightarrow> bool" where
  "has_str d k = (case py_get d k JNull of Inr (JStr _) \<Rightarrow> True | _ \<Rightarrow> False)"

definition has_strs :: "json \<Rightarrow> string \<Rightarrow> bool" where
  "has_strs d k = (case py_get d k JNull of Inr (JList xs) \<Rightarrow> list_all is_str xs | _ \<Rightarrow> False)"

definition spec_edge :: "json \<Rightarrow> bool" where
  "spec_edge e =
     (has_str e ''functional_relationship'' \<and> has_str e ''object1'' \<and> has_str e ''object2''
      \<and> has_strs e ''spatial_relations''
      \<and> (case py_get e ''is_touching'' JNull of Inr (JBool _) \<Rightarrow> True | _ \<Rightarrow> False))"

definition spec_scene_graph :: "json \<Rightarrow> bool" where
  "spec_scene_graph g =
     (has_str g ''task_instruction'' \<and> has_strs g ''nodes''
      \<and> (case py_get g ''edges'' JNull of Inr (JList es) \<Rightarrow> list_all spec_edge es | _ \<Rightarrow> False)
      \<and> has_str g ''action_type'' \<and> has_str g ''function_type'')"

text \<open>
  The label of the specification read on the text itself: \<^verbatim>\<open>Answer\<close>, optional
  white space, a colon, optional white space and an opening brace, at the front
  of the text.  The result is the text from the brace on.  \<open>spec_first_label\<close>
  looks for the first position of the text where the label stands.
\<close>

definition spec_label_at :: "string \<Rightarrow> string option" where
  "spec_label_at t =
     (if take 6 t = ''Answer'' then
        (case dropWhile is_space (drop 6 t) of
           [] \<Rightarrow> None
         | c # r \<Rightarrow>
             if c = CHR '':'' then
               (case dropWhile is_space r of
                  [] \<Rightarrow> None
                | d # r' \<Rightarrow> if d = CHR ''{'' then Some (d # r') else None)
             else None)
      else None)"

fun spec_first_label :: "string \<Rightarrow> string option" where
  "spec_first_label [] = None"
| "spec_first_label (c # cs) =
     (case spec_label_at (c # cs) of
        Some b \<Rightarrow> Some b
      | None \<Rightarrow> spec_first_label cs)"

text \<open>A text up to and including its last closing brace, and what follows that brace.\<close>

definition upto_last_brace :: "string \<Rightarrow> string" where
  "upto_last_brace s = rev (dropWhile (\<lambda>c. c \<noteq> CHR ''}'') (rev s))"

definition after_last_brace :: "string \<Rightarrow> string" where
  "after_last_brace s = rev (takeWhile (\<lambda>c. c \<noteq> CHR ''}'') (rev s))"

text \<open>Responses with text after the payload, and with two labels.\<close>

definition trailing_text_response :: string where
  \<open>trailing_text_response = ''Answer: {"a": 1} ok''\<close>

definition two_answers_response :: string where
  \<open>two_answers_response = ''Answer: {"a": 1} Answer: {"b": 2}''\<close>

section \<open>The length penalty at its boundaries\<close>

text \<open>
  C4 (as amended).  At the expected length \<open>max - buffer\<close> the penalty is 0.  At the
  maximal length it is -1 for every positive buffer, whatever the expected length
  is (not only when the expected length is 0).  For \<open>max = 100\<close> and
  \<open>buffer = 20\<close> the lengths 80, 90 and 150 give 0, -0.5 and -1.
\<close>

theorem soft_overlong_boundary:
  "soft_overlong_punishment (mx - buf) mx buf = Inr 0
   \<and> (0 < buf \<longrightarrow> soft_overlong_punishment mx mx buf = Inr (- 1))
   \<and> soft_overlong_punishment 80 100 20 = Inr 0
   \<and> soft_overlong_punishment 90 100 20 = Inr (- (1 / 2))
   \<and> soft_overlong_punishment 150 100 20 = Inr (- 1)"
  by (simp add: soft_overlong_punishment_def)

theorem soft_overlong_boundary_witness:
  "(0 :: int) < 20 \<and> soft_overlong_punishment 100 100 20 = Inr (- 1)"
  using soft_overlong_boundary [of 100 20] by simp

text \<open>
  The claim as the specification words it, that the penalty at the maximal length
  is -1 only when the expected length is 0, fails for \<open>max = 100\<close> and
  \<open>buffer = 20\<close>, where the expected length is 80.
\<close>

theorem soft_overlong_only_when_counterexample:
  "\<not> (soft_overlong_punishment 100 100 20 = Inr (- 1) \<longrightarrow> (100 :: int) - 20 = 0)"
  by (simp add: soft_overlong_punishment_def)


section \<open>The accuracy reward as a step function\<close>

lemma similarity_reward_mono: "s1 \<le> s2 \<Longrightarrow> similarity_reward s1 \<le> similarity_reward s2"
  by (simp add: similarity_reward_def)

lemma similarity_reward_bucket: "spec_accuracy_bucket s (similarity_reward s)"
  by (simp add: spec_accuracy_bucket_def similarity_reward_def)

lemma spec_accuracy_bucket_unique: "spec_accuracy_bucket s a \<Longrightarrow> a = similarity_reward s"
  by (auto simp: spec_accuracy_bucket_def similarity_reward_def)

text \<open>
  C2.  When the ground truth decodes, a payload is extracted and the format reward
  is 1, the accuracy reward is what the graph similarity gives (an exception of
  the similarity is an exception of the accuracy), mapped through the six buckets
  with inclusive lower bounds: at least 0.98 gives 1, [0.85, 0.98) gives 0.8,
  [0.70, 0.85) gives 0.5, [0.50, 0.70) gives 0.2, [0.30, 0.50) gives 0 and below
  0.30 gives -0.5.  The mapping is monotone.
\<close>

theorem accuracy_reward_is_step_of_similarity:
  assumes "json_loads (py_strip gt) = Some gt_json"
    and "extract_answer_json resp \<noteq> JNull"
    and "format_reward resp = Inr 1"
  shows "(case calculate_graph_similarity (extract_answer_json resp) gt_json of
            Inl e \<Rightarrow> accuracy_reward resp gt = Inl e
          | Inr s \<Rightarrow>
              (\<exists>a. accuracy_reward resp gt = Inr a \<and> spec_accuracy_bucket s a
                 \<and> (\<forall>s' a'. s \<le> s' \<and> spec_accuracy_bucket s' a' \<longrightarrow> a \<le> a')))"
proof -
  have acc: "accuracy_reward resp gt =
      bnd (calculate_graph_similarity (extract_answer_json resp) gt_json)
        (\<lambda>s. Inr (similarity_reward s))"
    using assms by (simp add: accuracy_reward_def)
  show ?thesis
  proof (cases "calculate_graph_similarity (extract_answer_json resp) gt_json")
    case (Inl e)
    then show ?thesis by (simp add: acc)
  next
    case (Inr s)
    have "\<forall>s' a'. s \<le> s' \<and> spec_accuracy_bucket s' a' \<longrightarrow> similarity_reward s \<le> a'"
      using similarity_reward_mono spec_accuracy_bucket_unique by blast
    with Inr show ?thesis by (simp add: acc similarity_reward_bucket)
  qed
qed

theorem accuracy_reward_is_step_of_similarity_witness:
  "json_loads (py_strip small_payload) = Some small_graph
   \<and> extract_answer_json (''Answer: '' @ small_payload) \<noteq> JNull
   \<and> format_reward (''Answer: '' @ small_payload) = Inr 1
   \<and> calculate_graph_similarity (extract_answer_json (''Answer: '' @ small_payload))
        small_graph = Inr (3 / 5)
   \<and> accuracy_reward (''Answer: '' @ small_payload) small_payload = Inr (2 / 10)"
proof -
  have g: "json_loads (py_strip small_payload) = Some small_graph"
    by code_simp
  have e: "extract_answer_json (''Answer: '' @ small_payload) \<noteq> JNull"
    by code_simp
  have f: "format_reward (''Answer: '' @ small_payload) = Inr 1"
    by code_simp
  have s: "calculate_graph_similarity (extract_answer_json (''Answer: '' @ small_payload))
        small_graph = Inr (3 / 5)"
    by code_simp
  from accuracy_reward_is_step_of_similarity [OF g e f] s
  have "accuracy_reward (''Answer: '' @ small_payload) small_payload = Inr (2 / 10)"
    by (auto simp: spec_accuracy_bucket_def)
  with g e f s show ?thesis by simp
qed

section \<open>The format gate\<close>

text \<open>
  C5.  When the format reward of a response is 0, its accuracy reward is returned
  and is at most 0, for every ground truth.
\<close>

theorem format_gate:
  assumes "format_reward resp = Inr 0"
  shows "\<exists>a. accuracy_reward resp gt = Inr a \<and> a \<le> 0"
  using assms by (simp add: accuracy_reward_def Let_def split: option.split)

theorem format_gate_witness:
  "format_reward ''Answer: {}'' = Inr 0 \<and> accuracy_reward ''Answer: {}'' ''{}'' = Inr 0"
proof -
  have f: "format_reward ''Answer: {}'' = Inr 0"
    by code_simp
  have a: "accuracy_reward ''Answer: {}'' ''{}'' = Inr 0"
    by code_simp
  from format_gate [OF f, of "''{}''"] f a show ?thesis by simp
qed

section \<open>The reference scenario\<close>

lemma soft_overlong_punishment_returns:
  "\<exists>v. soft_overlong_punishment n mx buf = Inr v"
  by (simp add: soft_overlong_punishment_def Let_def)

lemma score_sample_fields:
  assumes "format_reward (response x) = Inr f"
    and "accuracy_reward (response x) (ground_truth x) = Inr a"
  shows "\<exists>r. score_sample mx buf fac fw x = Inr r \<and> format r = f \<and> accuracy r = a"
proof -
  obtain v where "soft_overlong_punishment (int (length (response x))) mx buf = Inr v"
    using soft_overlong_punishment_returns by blast
  with assms show ?thesis by (simp add: score_sample_def)
qed

text \<open>
  C7.  With the toaster graph as ground truth: the response whose payload is that
  graph has format 1 and accuracy 1; the same payload with the action
  \<^verbatim>\<open>press\<close> has format 1 and accuracy 0.5; a response with no \<^verbatim>\<open>Answer:\<close>
  has format 0 and accuracy -0.5.  \<open>compute_score\<close> reports these values in its
  records, in the order of the samples, under every configuration.
\<close>

theorem toaster_scenario:
  "format_reward exact_response = Inr 1
   \<and> accuracy_reward exact_response toaster_gt = Inr 1
   \<and> format_reward press_response = Inr 1
   \<and> accuracy_reward press_response toaster_gt = Inr (1 / 2)
   \<and> format_reward no_answer_response = Inr 0
   \<and> accuracy_reward no_answer_response toaster_gt = Inr (- (1 / 2))
   \<and> map_sum id (map (\<lambda>r. (format r, accuracy r)))
        (compute_score
           (Batch [\<lparr>response = exact_response, ground_truth = toaster_gt\<rparr>,
                   \<lparr>response = press_response, ground_truth = toaster_gt\<rparr>,
                   \<lparr>response = no_answer_response, ground_truth = toaster_gt\<rparr>])
           mx buf fac fw)
      = Inr [(1, 1), (1, 1 / 2), (0, - (1 / 2))]"
proof -
  have a1: "format_reward exact_response = Inr 1"
    by code_simp
  have a2: "accuracy_reward exact_response toaster_gt = Inr 1"
    by code_simp
  have a3: "format_reward press_response = Inr 1"
    by code_simp
  have a4: "accuracy_reward press_response toaster_gt = Inr (1 / 2)"
    by code_simp
  have a5: "format_reward no_answer_response = Inr 0"
    by code_simp
  have a6: "accuracy_reward no_answer_response toaster_gt = Inr (- (1 / 2))"
    by code_simp
  obtain r1 where r1:
    "score_sample mx buf fac fw \<lparr>response = exact_response, ground_truth = toaster_gt\<rparr> = Inr r1"
    "format r1 = 1" "accuracy r1 = 1"
    using score_sample_fields [of "\<lparr>response = exact_response, ground_truth = toaster_gt\<rparr>" 1 1 mx buf fac fw]
      a1 a2 by auto
  obtain r2 where r2:
    "score_sample mx buf fac fw \<lparr>response = press_response, ground_truth = toaster_gt\<rparr> = Inr r2"
    "format r2 = 1" "accuracy r2 = 1 / 2"
    using score_sample_fields [of "\<lparr>response = press_response, ground_truth = toaster_gt\<rparr>" 1 "1 / 2" mx buf fac fw]
      a3 a4 by auto
  obtain r3 where r3:
    "score_sample mx buf fac fw \<lparr>response = no_answer_response, ground_truth = toaster_gt\<rparr> = Inr r3"
    "format r3 = 0" "accuracy r3 = - (1 / 2)"
    using score_sample_fields [of "\<lparr>response = no_answer_response, ground_truth = toaster_gt\<rparr>" 0 "- (1 / 2)" mx buf fac fw]
      a5 a6 by auto
  have "map_sum id (map (\<lambda>r. (format r, accuracy r)))
        (compute_score
           (Batch [\<lparr>response = exact_response, ground_truth = toaster_gt\<rparr>,
                   \<lparr>response = press_response, ground_truth = toaster_gt\<rparr>,
                   \<lparr>response = no_answer_response, ground_truth = toaster_gt\<rparr>])
           mx buf fac fw)
      = Inr [(1, 1), (1, 1 / 2), (0, - (1 / 2))]"
    by (simp add: compute_score_def r1 r2 r3)
  with a1 a2 a3 a4 a5 a6 show ?thesis by simp
qed

section \<open>Exceptions of the batch function\<close>

text \<open>
  C9 (where the code departs from the claim).  An argument that is not a list is
  refused with \<^verbatim>\<open>ValueError\<close>.  But a list of one sample, whose two fields are
  strings, also ends in an exception: the payload decodes, its \<^verbatim>\<open>action_type\<close>
  is a list, and the membership test in the set of valid actions hashes it.
\<close>

theorem compute_score_raises_on_unhashable_action:
  "compute_score NotAList mx buf fac fw = Inl ValueError
   \<and> format_reward unhashable_action_response = Inl TypeError
   \<and> compute_score
        (Batch [\<lparr>response = unhashable_action_response, ground_truth = ''{}''\<rparr>])
        mx buf fac fw = Inl TypeError"
proof -
  have f: "format_reward unhashable_action_response = Inl TypeError"
    by code_simp
  show ?thesis
    by (simp add: compute_score_def score_sample_def f)
qed

section \<open>What the format check does not inspect\<close>

text \<open>
  C10.  The format reward is 1 for a payload that passes the checks made, whatever
  the value of \<^verbatim>\<open>function_type\<close>, the elements of \<^verbatim>\<open>nodes\<close> and the values of
  \<^verbatim>\<open>object1\<close> and \<^verbatim>\<open>object2\<close> are: a number, non-strings, non-strings.
\<close>

theorem format_reward_ignores_untyped_fields:
  assumes "re_search answer_label_re resp \<noteq> None"
    and "extract_answer_json resp =
      JDict [(''task_instruction'', JStr t),
             (''nodes'', JList ns),
             (''edges'', JList [JDict
                [(''functional_relationship'', JStr ''control''),
                 (''object1'', o1),
                 (''object2'', o2),
                 (''spatial_relations'', JList []),
                 (''is_touching'', JBool b)]]),
             (''action_type'', JStr ''press''),
             (''function_type'', ft)]"
  shows "format_reward resp = Inr 1"
  using assms
  by (simp add: format_reward_def edge_valid_def VALID_ACTION_TYPES_def
      VALID_FUNCTIONAL_RELATIONSHIPS_def)

theorem format_reward_ignores_untyped_fields_witness:
  "re_search answer_label_re untyped_response \<noteq> None
   \<and> extract_answer_json untyped_response =
      JDict [(''task_instruction'', JStr ''t''),
             (''nodes'', JList [JInt 1, JNull, JList [JStr ''x'']]),
             (''edges'', JList [JDict
                [(''functional_relationship'', JStr ''control''),
                 (''object1'', JInt 1),
                 (''object2'', JNull),
                 (''spatial_relations'', JList []),
                 (''is_touching'', JBool True)]]),
             (''action_type'', JStr ''press''),
             (''function_type'', JInt 42)]
   \<and> format_reward untyped_response = Inr 1"
proof -
  have l: "re_search answer_label_re untyped_response \<noteq> None"
    by code_simp
  have e: "extract_answer_json untyped_response =
      JDict [(''task_instruction'', JStr ''t''),
             (''nodes'', JList [JInt 1, JNull, JList [JStr ''x'']]),
             (''edges'', JList [JDict
                [(''functional_relationship'', JStr ''control''),
                 (''object1'', JInt 1),
                 (''object2'', JNull),
                 (''spatial_relations'', JList []),
                 (''is_touching'', JBool True)]]),
             (''action_type'', JStr ''press''),
             (''function_type'', JInt 42)]"
    by code_simp
  from format_reward_ignores_untyped_fields [OF l e] l e show ?thesis by simp
qed

section \<open>The objects of an edge\<close>

lemma swap_key_inj: "swap_key a = swap_key b \<longleftrightarrow> a = b"
  by (auto simp: swap_key_def split: if_splits)

lemma swap_key_invol: "swap_key (swap_key k) = k"
  by (simp add: swap_key_def)

lemma map_of_swap: "map_of (map (\<lambda>(k, v). (swap_key k, v)) kvs) (swap_key k) = map_of kvs k"
  by (induction kvs) (auto simp: swap_key_inj)

lemma py_get_swap: "py_get (swap_objects e) k d = py_get e (swap_key k) d"
proof (cases e)
  case (JDict kvs)
  have "map_of (map (\<lambda>(k, v). (swap_key k, v)) kvs) k = map_of kvs (swap_key k)"
    using map_of_swap [of kvs "swap_key k"] by (simp add: swap_key_invol)
  with JDict show ?thesis by simp
qed simp_all

lemma swap_key_fields:
  "swap_key ''object1'' = ''object2''"
  "swap_key ''object2'' = ''object1''"
  "swap_key ''functional_relationship'' = ''functional_relationship''"
  "swap_key ''spatial_relations'' = ''spatial_relations''"
  "swap_key ''is_touching'' = ''is_touching''"
  by (simp_all add: swap_key_def)

lemma py_set_of_commute: "py_set_of [a, b] = py_set_of [b, a]"
  by (auto simp: py_set_of_def)

lemma swap_predicted_edge:
  "calculate_edge_similarity (swap_objects e) g = calculate_edge_similarity e g"
proof (cases "is_dict e")
  case False
  then show ?thesis by (cases e) simp_all
next
  case True
  then obtain kvs where e: "e = JDict kvs" by (cases e) simp_all
  have sw: "py_set_of [a, b] = py_set_of [b, a]" for a b by (rule py_set_of_commute)
  show ?thesis
    unfolding calculate_edge_similarity_def py_get_swap swap_key_fields
    unfolding e by (simp add: sw)
qed

lemma swap_ground_truth_edge:
  "calculate_edge_similarity e (swap_objects g) = calculate_edge_similarity e g"
proof (cases "is_dict g")
  case False
  then show ?thesis by (cases g) simp_all
next
  case True
  then obtain kvs where g: "g = JDict kvs" by (cases g) simp_all
  have sw: "py_set_of [a, b] = py_set_of [b, a]" for a b by (rule py_set_of_commute)
  show ?thesis
    unfolding calculate_edge_similarity_def py_get_swap swap_key_fields
    unfolding g by (simp add: sw)
qed

lemma py_set_strs: "py_set (JList (map JStr rs)) = Inr (JStr ` set rs)"
  by (simp add: py_set_def py_set_of_def list_all_iff image_image)

lemma card_JStr_Int: "card (JStr ` A \<inter> JStr ` B) = card (A \<inter> B)"
proof -
  have "JStr ` A \<inter> JStr ` B = JStr ` (A \<inter> B)" by auto
  then show ?thesis by (simp add: card_image inj_on_def)
qed

lemma card_JStr_Un: "card (JStr ` A \<union> JStr ` B) = card (A \<union> B)"
proof -
  have "JStr ` A \<union> JStr ` B = JStr ` (A \<union> B)" by auto
  then show ?thesis by (simp add: card_image inj_on_def)
qed

lemma pair_JStr_eq: "{JStr a, JStr b} = {JStr c, JStr d} \<longleftrightarrow> {a, b} = {c, d}"
  by (auto simp: doubleton_eq_iff)

lemma edge_similarity_mk_edge:
  "calculate_edge_similarity (mk_edge f a b rs t) (mk_edge f' c d rs' t') =
     Inr (((if {a, b} = {c, d} then 1 else 0)
           + (if f = f' then 1 else 0)
           + (if set rs' \<noteq> {}
              then real (card (set rs \<inter> set rs')) / real (card (set rs \<union> set rs'))
              else 0)
           + (if t = t' then 1 else 0)) / 4)"
proof -
  have pos: "set rs' \<noteq> {} \<Longrightarrow> 0 < card (set rs \<union> set rs')"
    by (simp add: card_gt_0_iff)
  show ?thesis
    unfolding calculate_edge_similarity_def mk_edge_def
    by (simp add: py_set_strs py_set_of_def py_eq_def iou_def card_JStr_Int card_JStr_Un
        pair_JStr_eq pos Let_def)
qed

text \<open>
  C8.  Exchanging \<^verbatim>\<open>object1\<close> and \<^verbatim>\<open>object2\<close> in the predicted edge or in the
  ground-truth edge does not change the edge similarity (nor its exception, if it
  raises).  For edges of the data model, the first of the four components is 1
  when the two unordered pairs of object strings are equal and 0 otherwise.  A
  label with a slash matches the identical label only: against \<^verbatim>\<open>faucet\<close> the
  component of \<^verbatim>\<open>faucet / handle\<close> is 0, against itself (in either order) it
  is 1.
\<close>

theorem edge_objects_unordered_exact:
  "calculate_edge_similarity (swap_objects e) g = calculate_edge_similarity e g
   \<and> calculate_edge_similarity e (swap_objects g) = calculate_edge_similarity e g
   \<and> calculate_edge_similarity (mk_edge f a b rs t) (mk_edge f' c d rs' t') =
       Inr (((if {a, b} = {c, d} then 1 else 0)
             + (if f = f' then 1 else 0)
             + (if set rs' \<noteq> {}
                then real (card (set rs \<inter> set rs')) / real (card (set rs \<union> set rs'))
                else 0)
             + (if t = t' then 1 else 0)) / 4)
   \<and> calculate_edge_similarity
         (mk_edge ''control'' ''faucet'' ''kitchen sink'' [''close''] True)
         (mk_edge ''control'' ''faucet / handle'' ''kitchen sink'' [''close''] True)
       = Inr (3 / 4)
   \<and> calculate_edge_similarity
         (mk_edge ''control'' ''kitchen sink'' ''faucet / handle'' [''close''] True)
         (mk_edge ''control'' ''faucet / handle'' ''kitchen sink'' [''close''] True)
       = Inr 1"
  by (simp add: swap_predicted_edge swap_ground_truth_edge edge_similarity_mk_edge
      doubleton_eq_iff)


section \<open>Bounds of the similarities\<close>

lemma bnd_eq_Inr: "bnd m f = Inr y \<longleftrightarrow> (\<exists>x. m = Inr x \<and> f x = Inr y)"
  by (cases m) simp_all

lemma bnd_InrE:
  assumes "bnd m f = Inr y"
  obtains x where "m = Inr x" and "f x = Inr y"
  using assms by (auto simp: bnd_eq_Inr)

lemma iou_bounds: "0 \<le> iou p g \<and> iou p g \<le> 1"
proof (cases "0 < card (p \<union> g)")
  case True
  then have "finite (p \<union> g)" by (simp add: card_gt_0_iff)
  then have "card (p \<inter> g) \<le> card (p \<union> g)" by (intro card_mono) auto
  with True show ?thesis by (simp add: iou_def Let_def)
next
  case False
  then show ?thesis by (simp add: iou_def Let_def)
qed

lemma unit_if: "0 \<le> (if P then 1 else 0 :: real)" "(if P then 1 else 0 :: real) \<le> 1"
  by simp_all

lemma unit_iou: "0 \<le> (if Q then iou p g else 0)" "(if Q then iou p g else 0) \<le> 1"
  using iou_bounds [of p g] by simp_all

lemma avg4:
  fixes a b c d :: real
  assumes "0 \<le> a" "a \<le> 1" "0 \<le> b" "b \<le> 1" "0 \<le> c" "c \<le> 1" "0 \<le> d" "d \<le> 1"
  shows "0 \<le> (a + b + c + d) / 4 \<and> (a + b + c + d) / 4 \<le> 1"
  using assms by simp

lemma avg5:
  fixes a b c d e :: real
  assumes "0 \<le> a" "a \<le> 1" "0 \<le> b" "b \<le> 1" "0 \<le> c" "c \<le> 1" "0 \<le> d" "d \<le> 1"
    "0 \<le> e \<and> e \<le> 1"
  shows "0 \<le> (a + b + c + d + e) / 5 \<and> (a + b + c + d + e) / 5 \<le> 1"
  using assms by simp

lemma Inr_eqD: "Inr a = Inr b \<Longrightarrow> a = b"
  by simp

lemma edge_similarity_bounds:
  assumes "calculate_edge_similarity pe ge = Inr s"
  shows "0 \<le> s \<and> s \<le> 1"
  using assms unfolding calculate_edge_similarity_def
  apply (elim bnd_InrE)
  apply (drule Inr_eqD)
  apply hypsubst
  apply (intro avg4 unit_if unit_iou)
  done

lemma best_match_loop_bounds:
  assumes "best_match_loop b ps g = Inr m" and "0 \<le> b" and "b \<le> 1"
  shows "b \<le> m \<and> m \<le> 1"
  using assms
proof (induction ps arbitrary: b)
  case Nil
  then show ?case by simp
next
  case (Cons p ps)
  from Cons.prems(1) obtain s
    where s: "calculate_edge_similarity p g = Inr s"
      and r: "best_match_loop (max b s) ps g = Inr m"
    by (auto simp: bnd_eq_Inr)
  from edge_similarity_bounds [OF s] Cons.prems have "0 \<le> max b s" "max b s \<le> 1"
    by auto
  with Cons.IH [OF r] show ?case by simp
qed

lemma edge_score_loop_bounds:
  assumes "edge_score_loop acc pe gl = Inr t"
  shows "acc \<le> t \<and> t \<le> acc + real (length gl)"
  using assms
proof (induction gl arbitrary: acc)
  case Nil
  then show ?case by simp
next
  case (Cons g gl)
  from Cons.prems obtain pl m
    where m: "best_match_loop 0 pl g = Inr m"
      and r: "edge_score_loop (acc + m) pe gl = Inr t"
    by (auto simp: bnd_eq_Inr)
  from best_match_loop_bounds [OF m] have "0 \<le> m" "m \<le> 1" by simp_all
  with Cons.IH [OF r] show ?case by simp
qed

lemma edges_similarity_Inr:
  assumes "edges_similarity pe ge = Inr s" and "py_truthy ge"
  obtains gl pl t where "py_iter ge = Inr gl" and "gl \<noteq> []" and "py_iter pe = Inr pl"
    and "edge_score_loop 0 pe gl = Inr t"
    and "s = (if length pl > length gl
              then max 0 (t / real (length gl)
                          - (real (length pl) - real (length gl)) * (1 / 10))
              else t / real (length gl))"
proof -
  from assms have "bnd (py_iter ge) (\<lambda>gl.
        bnd (edge_score_loop 0 pe gl) (\<lambda>total.
        bnd (py_len ge) (\<lambda>n.
          if n = 0 then Inl ZeroDivisionError
          else
            bnd (py_len pe) (\<lambda>m.
              let edge_score = total / real n
              in if m > n
                 then let penalty = (real m - real n) * (1 / 10)
                      in Inr (max 0 (edge_score - penalty))
                 else Inr edge_score)))) = Inr s"
    by (simp add: edges_similarity_def)
  then obtain gl t n m
    where gl: "py_iter ge = Inr gl"
      and t: "edge_score_loop 0 pe gl = Inr t"
      and n: "py_len ge = Inr n"
      and r: "(if n = 0 then Inl ZeroDivisionError
               else bnd (py_len pe) (\<lambda>m.
                 let edge_score = t / real n
                 in if m > n
                    then let penalty = (real m - real n) * (1 / 10)
                         in Inr (max 0 (edge_score - penalty))
                    else Inr edge_score)) = Inr s"
    by (elim bnd_InrE)
  from gl n have n': "n = length gl" by (simp add: py_len_def)
  from r have n0: "n \<noteq> 0" by (auto split: if_split_asm)
  with r obtain m where m: "py_len pe = Inr m"
    and s: "(let edge_score = t / real n
             in if m > n
                then let penalty = (real m - real n) * (1 / 10)
                     in Inr (max 0 (edge_score - penalty))
                else Inr edge_score) = (Inr s :: py_error + real)"
    by (auto elim: bnd_InrE)
  from m obtain pl where pl: "py_iter pe = Inr pl" and m': "m = length pl"
    by (auto simp: py_len_def bnd_eq_Inr)
  from s have "s = (if length pl > length gl
              then max 0 (t / real (length gl)
                          - (real (length pl) - real (length gl)) * (1 / 10))
              else t / real (length gl))"
    unfolding n' m' Let_def by (simp split: if_split_asm)
  with gl n0 n' pl t show ?thesis by (intro that [of gl pl t]) simp_all
qed

lemma edges_similarity_bounds:
  assumes "edges_similarity pe ge = Inr s"
  shows "0 \<le> s \<and> s \<le> 1"
proof (cases "py_truthy ge")
  case False
  with assms show ?thesis by (simp add: edges_similarity_def)
next
  case True
  show ?thesis
  proof (rule edges_similarity_Inr [OF assms True])
  fix gl pl t
  assume n: "gl \<noteq> []"
    and t: "edge_score_loop 0 pe gl = Inr t"
    and s: "s = (if length pl > length gl
                 then max 0 (t / real (length gl)
                             - (real (length pl) - real (length gl)) * (1 / 10))
                 else t / real (length gl))"
  define q where "q = t / real (length gl)"
  define pen where "pen = (real (length pl) - real (length gl)) * (1 / 10)"
  from edge_score_loop_bounds [OF t] have tb: "0 \<le> t" "t \<le> real (length gl)" by simp_all
  from n have pos: "0 < real (length gl)" by simp
  have q0: "0 \<le> q"
    unfolding q_def using tb(1) pos by (intro divide_nonneg_pos)
  have q1: "q \<le> 1"
    unfolding q_def using tb(2) pos by (simp add: pos_divide_le_eq)
  show ?thesis
  proof (cases "length pl > length gl")
    case True
    then have "0 \<le> pen" by (simp add: pen_def)
    moreover from True s have "s = max 0 (q - pen)" by (simp add: q_def pen_def)
    ultimately show ?thesis using q1 by linarith
  next
    case False
    with s have "s = q" by (simp add: q_def)
    with q0 q1 show ?thesis by simp
  qed
  qed
qed

lemma graph_similarity_bounds:
  assumes "calculate_graph_similarity p g = Inr s"
  shows "0 \<le> s \<and> s \<le> 1"
proof (cases "p = JNull \<or> g = JNull")
  case True
  with assms show ?thesis by (auto simp: calculate_graph_similarity_def)
next
  case False
  with assms show ?thesis
    unfolding calculate_graph_similarity_def
    apply (simp only: if_False)
    apply (elim bnd_InrE)
    apply (drule Inr_eqD)
    apply hypsubst
    apply (intro avg5 unit_if unit_iou edges_similarity_bounds)
    apply assumption
    done
qed

lemma similarity_reward_values:
  "similarity_reward s \<in> {- (1 / 2), 0, 1 / 5, 1 / 2, 4 / 5, 1}"
  by (simp add: similarity_reward_def)

lemma accuracy_reward_values:
  assumes "accuracy_reward resp gt = Inr a"
  shows "a \<in> {- (1 / 2), 0, 1 / 5, 1 / 2, 4 / 5, 1}"
proof -
  from assms have "a = - (1 / 2) \<or> a = 0 \<or> (\<exists>s. a = similarity_reward s)"
    by (auto simp: accuracy_reward_def Let_def bnd_eq_Inr split: option.splits if_splits)
  with similarity_reward_values show ?thesis by auto
qed


lemma ex_Inr_iff: "(\<exists>s. m = Inr s) \<longleftrightarrow> \<not> isl m"
  by (cases m) simp_all

lemma has_str_get:
  assumes "has_str e k"
  obtains v where "\<And>d. py_get e k d = Inr (JStr v)"
proof (cases e)
  case (JDict kvs)
  with assms obtain v where "map_of kvs k = Some (JStr v)"
    by (auto simp: has_str_def split: option.splits json.splits)
  with JDict have "py_get e k d = Inr (JStr v)" for d by simp
  then show ?thesis by (rule that)
qed (use assms in \<open>simp_all add: has_str_def\<close>)

lemma has_strs_get:
  assumes "has_strs e k"
  obtains xs where "\<And>d. py_get e k d = Inr (JList xs)" and "list_all is_str xs"
proof (cases e)
  case (JDict kvs)
  with assms obtain xs where "map_of kvs k = Some (JList xs)" and xs: "list_all is_str xs"
    by (auto simp: has_strs_def split: option.splits json.splits)
  with JDict have "py_get e k d = Inr (JList xs)" for d by simp
  then show ?thesis using xs by (rule that)
qed (use assms in \<open>simp_all add: has_strs_def\<close>)

lemma is_str_hashable: "is_str v \<Longrightarrow> hashable v"
  by (cases v) simp_all

lemma py_set_str_list:
  assumes "list_all is_str xs"
  shows "\<exists>S. py_set (JList xs) = Inr S"
proof -
  from assms have "list_all hashable xs"
    by (simp add: list_all_iff is_str_hashable)
  then show ?thesis by (simp add: py_set_def py_set_of_def)
qed

lemma edge_similarity_returns:
  assumes "spec_edge pe" and "spec_edge ge"
  shows "\<exists>s. calculate_edge_similarity pe ge = Inr s"
proof -
  from assms(1) obtain pf p1 p2 ps pt
    where p: "\<And>d. py_get pe ''functional_relationship'' d = Inr (JStr pf)"
      "\<And>d. py_get pe ''object1'' d = Inr (JStr p1)"
      "\<And>d. py_get pe ''object2'' d = Inr (JStr p2)"
      "\<And>d. py_get pe ''spatial_relations'' d = Inr (JList ps)"
      "py_get pe ''is_touching'' JNull = Inr (JBool pt)"
      and ps: "list_all is_str ps"
    unfolding spec_edge_def
    by (elim conjE has_str_get has_strs_get) (auto split: sum.splits json.splits)
  from assms(2) obtain gf g1 g2 gs gt
    where g: "\<And>d. py_get ge ''functional_relationship'' d = Inr (JStr gf)"
      "\<And>d. py_get ge ''object1'' d = Inr (JStr g1)"
      "\<And>d. py_get ge ''object2'' d = Inr (JStr g2)"
      "\<And>d. py_get ge ''spatial_relations'' d = Inr (JList gs)"
      "py_get ge ''is_touching'' JNull = Inr (JBool gt)"
      and gs: "list_all is_str gs"
    unfolding spec_edge_def
    by (elim conjE has_str_get has_strs_get) (auto split: sum.splits json.splits)
  from py_set_str_list [OF ps] obtain P where P: "py_set (JList ps) = Inr P" ..
  from py_set_str_list [OF gs] obtain G where G: "py_set (JList gs) = Inr G" ..
  show ?thesis
    unfolding ex_Inr_iff
    by (simp add: calculate_edge_similarity_def p g P G py_set_of_def)
qed

lemma best_match_loop_returns:
  assumes "list_all spec_edge ps" and "spec_edge g"
  shows "\<exists>m. best_match_loop b ps g = Inr m"
  using assms(1)
proof (induction ps arbitrary: b)
  case Nil
  then show ?case by simp
next
  case (Cons p ps)
  then have "spec_edge p" by simp
  from edge_similarity_returns [OF this assms(2)] obtain s
    where "calculate_edge_similarity p g = Inr s" ..
  with Cons show ?case by simp
qed

lemma edge_score_loop_returns:
  assumes "list_all spec_edge ps" and "list_all spec_edge gl"
  shows "\<exists>t. edge_score_loop acc (JList ps) gl = Inr t"
  using assms(2)
proof (induction gl arbitrary: acc)
  case Nil
  then show ?case by simp
next
  case (Cons g gl)
  then have "spec_edge g" by simp
  from best_match_loop_returns [OF assms(1) this] obtain m
    where "best_match_loop 0 ps g = Inr m" ..
  with Cons show ?case by simp
qed

lemma edges_similarity_returns:
  assumes "list_all spec_edge ps" and "list_all spec_edge gs"
  shows "\<exists>s. edges_similarity (JList ps) (JList gs) = Inr s"
proof (cases "gs = []")
  case True
  then show ?thesis by (simp add: edges_similarity_def)
next
  case False
  from edge_score_loop_returns [OF assms] obtain t
    where "edge_score_loop 0 (JList ps) gs = Inr t" ..
  with False show ?thesis
    by (simp add: edges_similarity_def py_len_def Let_def)
qed

lemma graph_similarity_returns:
  assumes "spec_scene_graph p" and "spec_scene_graph g"
  shows "\<exists>s. calculate_graph_similarity p g = Inr s"
proof -
  from assms(1) obtain pti pn pes pat pft
    where p: "\<And>d. py_get p ''task_instruction'' d = Inr (JStr pti)"
      "\<And>d. py_get p ''nodes'' d = Inr (JList pn)"
      "\<And>d. py_get p ''action_type'' d = Inr (JStr pat)"
      "\<And>d. py_get p ''function_type'' d = Inr (JStr pft)"
      and pn: "list_all is_str pn"
      and pe: "py_get p ''edges'' JNull = Inr (JList pes)" "list_all spec_edge pes"
    unfolding spec_scene_graph_def
    by (elim conjE has_str_get has_strs_get) (auto split: sum.splits json.splits)
  from assms(2) obtain gti gn ges gat gft
    where g: "\<And>d. py_get g ''task_instruction'' d = Inr (JStr gti)"
      "\<And>d. py_get g ''nodes'' d = Inr (JList gn)"
      "\<And>d. py_get g ''action_type'' d = Inr (JStr gat)"
      "\<And>d. py_get g ''function_type'' d = Inr (JStr gft)"
      and gn: "list_all is_str gn"
      and ge: "py_get g ''edges'' JNull = Inr (JList ges)" "list_all spec_edge ges"
    unfolding spec_scene_graph_def
    by (elim conjE has_str_get has_strs_get) (auto split: sum.splits json.splits)
  have pe': "py_get p ''edges'' d = Inr (JList pes)" for d
    using pe(1) by (cases p) (auto split: option.splits)
  have ge': "py_get g ''edges'' d = Inr (JList ges)" for d
    using ge(1) by (cases g) (auto split: option.splits)
  from p(1) have pnn: "p \<noteq> JNull" by auto
  from g(1) have gnn: "g \<noteq> JNull" by auto
  from py_set_str_list [OF pn] obtain P where P: "py_set (JList pn) = Inr P" ..
  from py_set_str_list [OF gn] obtain G where G: "py_set (JList gn) = Inr G" ..
  from edges_similarity_returns [OF pe(2) ge(2)] obtain es
    where es: "edges_similarity (JList pes) (JList ges) = Inr es" ..
  show ?thesis
    unfolding ex_Inr_iff
    by (simp add: calculate_graph_similarity_def p g pe' ge' pnn gnn P G es)
qed


text \<open>
  C6 (as amended).  Whenever the edge similarity or the graph similarity returns a
  value, the value lies in [0, 1]; both return a value for all inputs shaped as
  the data model says (strings for labels, a list of strings for the nodes and
  the spatial relations, a boolean for \<^verbatim>\<open>is_touching\<close>).  Whenever the accuracy
  reward returns a value, it is one of -0.5, 0, 0.2, 0.5, 0.8 and 1.
\<close>

theorem similarity_bounds:
  "(calculate_edge_similarity pe ge = Inr s \<longrightarrow> 0 \<le> s \<and> s \<le> 1)
   \<and> (calculate_graph_similarity p g = Inr s' \<longrightarrow> 0 \<le> s' \<and> s' \<le> 1)
   \<and> (spec_edge pe \<and> spec_edge ge \<longrightarrow> (\<exists>s. calculate_edge_similarity pe ge = Inr s))
   \<and> (spec_scene_graph p \<and> spec_scene_graph g \<longrightarrow>
        (\<exists>s. calculate_graph_similarity p g = Inr s))
   \<and> (accuracy_reward resp gt = Inr a \<longrightarrow> a \<in> {- (1 / 2), 0, 1 / 5, 1 / 2, 4 / 5, 1})"
  using edge_similarity_bounds [of pe ge s] graph_similarity_bounds [of p g s']
    edge_similarity_returns [of pe ge] graph_similarity_returns [of p g]
    accuracy_reward_values [of resp gt a]
  by blast

theorem similarity_bounds_witness:
  "calculate_edge_similarity edge_ab edge_cd = Inr 0
   \<and> spec_edge edge_ab \<and> spec_edge edge_cd
   \<and> calculate_graph_similarity toaster_graph toaster_graph = Inr 1
   \<and> spec_scene_graph toaster_graph
   \<and> accuracy_reward ''Answer: {}'' ''{}'' = Inr 0
   \<and> (0 :: real) \<in> {- (1 / 2), 0, 1 / 5, 1 / 2, 4 / 5, 1}"
proof -
  have e: "calculate_edge_similarity edge_ab edge_cd = Inr 0"
    by code_simp
  have se: "spec_edge edge_ab" "spec_edge edge_cd"
    by code_simp+
  have g: "calculate_graph_similarity toaster_graph toaster_graph = Inr 1"
    by code_simp
  have sg: "spec_scene_graph toaster_graph"
    by code_simp
  have a: "accuracy_reward ''Answer: {}'' ''{}'' = Inr 0"
    by code_simp
  from similarity_bounds [of edge_ab edge_cd 0 toaster_graph toaster_graph 1
      "''Answer: {}''" "''{}''" 0] e se g sg a
  show ?thesis by simp
qed

text \<open>
  The claim as worded, for all dictionaries: an edge whose \<^verbatim>\<open>object1\<close> is a list,
  and a graph whose \<^verbatim>\<open>nodes\<close> contain a list, are dictionaries for which no
  value is returned, since a list cannot be put in a set.
\<close>

theorem similarity_raises_counterexample:
  "calculate_edge_similarity (JDict [(''object1'', JList [])]) (JDict []) = Inl TypeError
   \<and> calculate_graph_similarity (JDict [(''nodes'', JList [JList []])]) (JDict [])
       = Inl TypeError"
  by (simp add: calculate_edge_similarity_def calculate_graph_similarity_def py_set_of_def
      py_set_def)

section \<open>One more predicted edge\<close>

lemma best_match_loop_snoc:
  "best_match_loop b (ps @ [e]) g =
     bnd (best_match_loop b ps g) (\<lambda>m.
     bnd (calculate_edge_similarity e g) (\<lambda>s. Inr (max m s)))"
proof (induction ps arbitrary: b)
  case Nil
  show ?case by (cases "calculate_edge_similarity e g") simp_all
next
  case (Cons p ps)
  show ?case
    by (cases "calculate_edge_similarity p g") (simp_all add: Cons.IH)
qed

lemma edge_score_loop_snoc:
  assumes "\<forall>g \<in> set gs. \<exists>s m. calculate_edge_similarity e g = Inr s
             \<and> best_match_loop 0 ps g = Inr m \<and> s \<le> m"
  shows "edge_score_loop acc (JList (ps @ [e])) gs = edge_score_loop acc (JList ps) gs
         \<and> (\<exists>t. edge_score_loop acc (JList ps) gs = Inr t)"
  using assms
proof (induction gs arbitrary: acc)
  case Nil
  then show ?case by simp
next
  case (Cons g gs)
  then obtain s m where s: "calculate_edge_similarity e g = Inr s"
    and m: "best_match_loop 0 ps g = Inr m" and le: "s \<le> m"
    by auto
  then have "best_match_loop 0 (ps @ [e]) g = Inr m"
    by (simp add: best_match_loop_snoc max_def)
  with m Cons show ?case by simp
qed

text \<open>
  C1 (as amended).  For lists of edges with at least as many predicted edges as
  ground-truth edges: when the appended edge is, for every ground-truth edge, no
  more similar than the best predicted edge already present, both edges
  components are returned and the one with the appended edge is not larger.
\<close>

theorem extra_edge_without_better_match:
  assumes "length gs \<le> length ps"
    and "\<forall>g \<in> set gs. \<exists>s m. calculate_edge_similarity e g = Inr s
            \<and> best_match_loop 0 ps g = Inr m \<and> s \<le> m"
  shows "\<exists>a b. edges_similarity (JList ps) (JList gs) = Inr a
           \<and> edges_similarity (JList (ps @ [e])) (JList gs) = Inr b \<and> b \<le> a"
proof (cases "gs = []")
  case True
  then show ?thesis by (simp add: edges_similarity_def)
next
  case False
  from edge_score_loop_snoc [OF assms(2), of 0] obtain t
    where same: "edge_score_loop 0 (JList (ps @ [e])) gs = Inr t"
      and t: "edge_score_loop 0 (JList ps) gs = Inr t"
    by auto
  define q where "q = t / real (length gs)"
  define n where "n = real (length gs)"
  define k where "k = real (length ps)"
  from edge_score_loop_bounds [OF t] have "0 \<le> t" by simp
  then have q0: "0 \<le> q" by (simp add: q_def)
  from assms(1) have kn: "n \<le> k" by (simp add: n_def k_def)
  have a: "edges_similarity (JList ps) (JList gs) =
      Inr (if length ps > length gs then max 0 (q - (k - n) * (1 / 10)) else q)"
    using False t by (simp add: edges_similarity_def py_len_def Let_def q_def n_def k_def)
  have b: "edges_similarity (JList (ps @ [e])) (JList gs) =
      Inr (max 0 (q - (1 + k - n) * (1 / 10)))"
    using False same assms(1)
    by (simp add: edges_similarity_def py_len_def Let_def q_def n_def k_def)
  have "max 0 (q - (1 + k - n) * (1 / 10))
        \<le> (if length ps > length gs then max 0 (q - (k - n) * (1 / 10)) else q)"
    using q0 kn by (auto simp: max_def)
  with a b show ?thesis by simp
qed

theorem extra_edge_without_better_match_witness:
  "length [edge_ab] \<le> length [edge_ab]
   \<and> calculate_edge_similarity edge_cd edge_ab = Inr 0
   \<and> best_match_loop 0 [edge_ab] edge_ab = Inr 1
   \<and> edges_similarity (JList [edge_ab]) (JList [edge_ab]) = Inr 1
   \<and> edges_similarity (JList ([edge_ab] @ [edge_cd])) (JList [edge_ab]) = Inr (9 / 10)"
proof -
  have s: "calculate_edge_similarity edge_cd edge_ab = Inr 0"
    by code_simp
  have m: "best_match_loop 0 [edge_ab] edge_ab = Inr 1"
    by code_simp
  have a: "edges_similarity (JList [edge_ab]) (JList [edge_ab]) = Inr 1"
    by code_simp
  have b: "edges_similarity (JList ([edge_ab] @ [edge_cd])) (JList [edge_ab]) = Inr (9 / 10)"
    by code_simp
  have h: "\<forall>g \<in> set [edge_ab]. \<exists>s m. calculate_edge_similarity edge_cd g = Inr s
            \<and> best_match_loop 0 [edge_ab] g = Inr m \<and> s \<le> m"
    using s m by simp
  from extra_edge_without_better_match [OF _ h] s m a b show ?thesis by simp
qed

text \<open>
  Without that condition the claim fails: with one ground-truth edge and one
  predicted edge that agrees with it in nothing, the component is 0; appending a
  copy of the ground-truth edge raises it to 1 - 0.1 = 0.9.
\<close>

theorem extra_edge_raises_counterexample:
  "length [edge_ab] \<le> length [edge_cd]
   \<and> edges_similarity (JList [edge_cd]) (JList [edge_ab]) = Inr 0
   \<and> edges_similarity (JList ([edge_cd] @ [edge_ab])) (JList [edge_ab]) = Inr (9 / 10)"
  by code_simp



section \<open>The span the extractor captures\<close>

lemma match_here_lits:
  "match_here (map Lit w @ p) s =
     (if take (length w) s = w then match_here p (drop (length w) s) else None)"
proof (induction w arbitrary: s)
  case Nil
  show ?case by simp
next
  case (Cons a w)
  show ?case by (cases s) (auto simp: Cons.IH)
qed

lemma match_here_star:
  assumes "\<And>x xs. f x \<Longrightarrow> match_here p (x # xs) = None"
  shows "match_here (Star f # p) s = match_here p (dropWhile f s)"
proof (induction s)
  case Nil
  show ?case by simp
next
  case (Cons x xs)
  show ?case
  proof (cases "f x")
    case True
    with assms have "match_here p (x # xs) = None" by simp
    with True Cons show ?thesis by (simp split: option.split)
  next
    case False
    then show ?thesis by simp
  qed
qed

lemma after_last_brace_Cons:
  "after_last_brace (x # xs) =
     (if CHR ''}'' \<in> set xs then after_last_brace xs
      else if x = CHR ''}'' then xs else x # xs)"
  by (auto simp: after_last_brace_def takeWhile_append takeWhile_eq_all_conv)

lemma match_here_dotstar:
  "match_here [Star (\<lambda>c. True), Lit CHR ''}'', Mark] s =
     (if CHR ''}'' \<in> set s then Some [after_last_brace s] else None)"
proof (induction s)
  case Nil
  show ?case by simp
next
  case (Cons x xs)
  show ?case by (simp add: Cons.IH after_last_brace_Cons)
qed

lemma match_here_colon:
  "match_here (Lit CHR '':'' # Star is_space # Mark # Lit CHR ''{'' # p) u =
     (case u of
        [] \<Rightarrow> None
      | c # r \<Rightarrow>
          if c = CHR '':'' then match_here (Mark # Lit CHR ''{'' # p) (dropWhile is_space r)
          else None)"
proof -
  have sp: "is_space x \<Longrightarrow> match_here (Mark # Lit CHR ''{'' # p) (x # xs) = None" for x xs
    by (auto simp: is_space_def)
  show ?thesis by (cases u) (simp_all add: match_here_star [OF sp])
qed

lemma match_here_brace:
  "match_here [Mark, Lit CHR ''{'', Star (\<lambda>c. True), Lit CHR ''}'', Mark] v =
     (case v of
        [] \<Rightarrow> None
      | d # r \<Rightarrow>
          if d = CHR ''{'' \<and> CHR ''}'' \<in> set r then Some [d # r, after_last_brace r]
          else None)"
  by (cases v) (simp_all add: match_here_dotstar)

lemma match_here_answer_json_re:
  "match_here answer_json_re t =
     (case spec_label_at t of
        None \<Rightarrow> None
      | Some b \<Rightarrow>
          if CHR ''}'' \<in> set (tl b) then Some [b, after_last_brace (tl b)] else None)"
proof -
  have sp1: "is_space x \<Longrightarrow> match_here (Lit CHR '':'' # p) (x # xs) = None" for x xs p
    by (auto simp: is_space_def)
  have len: "length ''Answer'' = 6" by simp
  have lits: "match_here (map Lit ''Answer'' @ p) s =
      (if take 6 s = ''Answer'' then match_here p (drop 6 s) else None)" for p s
    using match_here_lits [of "''Answer''" p s] unfolding len .
  define u where "u = dropWhile is_space (drop 6 t)"
  have m: "match_here answer_json_re t =
      (if take 6 t = ''Answer''
       then match_here (Lit CHR '':'' # Star is_space # Mark # Lit CHR ''{''
               # [Star (\<lambda>c. True), Lit CHR ''}'', Mark]) u
       else None)"
    unfolding answer_json_re_def u_def
    by (simp only: lits append_Cons append_Nil match_here_star [OF sp1])
  have l: "spec_label_at t =
      (if take 6 t = ''Answer'' then
        (case u of
           [] \<Rightarrow> None
         | c # r \<Rightarrow>
             if c = CHR '':'' then
               (case dropWhile is_space r of
                  [] \<Rightarrow> None
                | d # r' \<Rightarrow> if d = CHR ''{'' then Some (d # r') else None)
             else None)
      else None)"
    by (simp add: spec_label_at_def u_def)
  show ?thesis
    unfolding m l
    by (simp only: match_here_colon match_here_brace)
       (simp split: list.split del: dropWhile_eq_Nil_conv)
qed


lemma spec_label_at_Some:
  assumes "spec_label_at t = Some b"
  obtains w1 w2 r where "t = ''Answer'' @ w1 @ CHR '':'' # w2 @ b" and "b = CHR ''{'' # r"
    and "\<forall>c \<in> set w1. is_space c" and "\<forall>c \<in> set w2. is_space c"
proof -
  from assms have a: "take 6 t = ''Answer''"
    by (auto simp: spec_label_at_def split: if_split_asm)
  with assms obtain u where u: "dropWhile is_space (drop 6 t) = CHR '':'' # u"
    by (auto simp: spec_label_at_def split: if_split_asm list.split_asm)
  with assms a obtain r where r: "dropWhile is_space u = CHR ''{'' # r" and b: "b = CHR ''{'' # r"
    by (auto simp: spec_label_at_def split: if_split_asm list.split_asm)
  define w1 where "w1 = takeWhile is_space (drop 6 t)"
  define w2 where "w2 = takeWhile is_space u"
  have "t = take 6 t @ drop 6 t" by simp
  also have "drop 6 t = w1 @ dropWhile is_space (drop 6 t)" by (simp add: w1_def)
  also have "dropWhile is_space (drop 6 t) = CHR '':'' # u" by (rule u)
  also have "u = w2 @ dropWhile is_space u" by (simp add: w2_def)
  finally have "t = ''Answer'' @ w1 @ CHR '':'' # w2 @ b" by (simp add: a r b)
  moreover have "\<forall>c \<in> set w1. is_space c" "\<forall>c \<in> set w2. is_space c"
    by (auto simp: w1_def w2_def dest: set_takeWhileD)
  ultimately show ?thesis using b by (intro that)
qed

lemma spec_label_at_brace:
  assumes "spec_label_at t = Some b" and "CHR ''}'' \<in> set t"
  shows "CHR ''}'' \<in> set (tl b)"
proof -
  from assms(1) obtain w1 w2 r
    where t: "t = ''Answer'' @ w1 @ CHR '':'' # w2 @ b" and b: "b = CHR ''{'' # r"
      and w: "\<forall>c \<in> set w1. is_space c" "\<forall>c \<in> set w2. is_space c"
    by (rule spec_label_at_Some)
  have "\<not> is_space CHR ''}''" by (simp add: is_space_def)
  with w have "CHR ''}'' \<notin> set w1" "CHR ''}'' \<notin> set w2" by auto
  with assms(2) show ?thesis unfolding t b by auto
qed

lemma spec_first_label_subset: "spec_first_label s = Some b \<Longrightarrow> set b \<subseteq> set s"
proof (induction s)
  case Nil
  then show ?case by simp
next
  case (Cons c cs)
  show ?case
  proof (cases "spec_label_at (c # cs)")
    case None
    with Cons show ?thesis by auto
  next
    case (Some b')
    with Cons.prems have "b' = b" by simp
    with Some obtain w1 w2 where "c # cs = ''Answer'' @ w1 @ CHR '':'' # w2 @ b"
      by (auto elim: spec_label_at_Some)
    then have "set (c # cs) = set (''Answer'' @ w1 @ CHR '':'' # w2 @ b)" by simp
    then show ?thesis by auto
  qed
qed

lemma spec_first_label_hd: "spec_first_label s = Some b \<Longrightarrow> \<exists>r. b = CHR ''{'' # r"
proof (induction s)
  case Nil
  then show ?case by simp
next
  case (Cons c cs)
  then show ?case
    by (cases "spec_label_at (c # cs)") (auto elim: spec_label_at_Some)
qed

lemma re_search_answer_json_re:
  "re_search answer_json_re s =
     (case spec_first_label s of
        None \<Rightarrow> None
      | Some b \<Rightarrow>
          if CHR ''}'' \<in> set (tl b) then Some [b, after_last_brace (tl b)] else None)"
proof (induction s)
  case Nil
  show ?case by (simp add: match_here_answer_json_re spec_label_at_def)
next
  case (Cons c cs)
  show ?case
  proof (cases "spec_label_at (c # cs)")
    case None
    then show ?thesis by (simp add: match_here_answer_json_re Cons.IH)
  next
    case (Some b)
    show ?thesis
    proof (cases "CHR ''}'' \<in> set (tl b)")
      case True
      with Some show ?thesis by (simp add: match_here_answer_json_re)
    next
      case False
      with spec_label_at_brace [OF Some] have no: "CHR ''}'' \<notin> set cs" by auto
      have "re_search answer_json_re cs = None"
      proof (cases "spec_first_label cs")
        case None
        then show ?thesis by (simp add: Cons.IH)
      next
        case (Some b')
        from spec_first_label_subset [OF Some] no have "CHR ''}'' \<notin> set (tl b')"
          by (cases b') auto
        with Some show ?thesis by (simp add: Cons.IH)
      qed
      with Some False show ?thesis by (simp add: match_here_answer_json_re)
    qed
  qed
qed

lemma upto_after_last_brace: "upto_last_brace s @ after_last_brace s = s"
  unfolding upto_last_brace_def after_last_brace_def
  by (metis rev_append rev_rev_ident takeWhile_dropWhile_id)

lemma group1_span:
  assumes "CHR ''}'' \<in> set r"
  shows "group1 [d # r, after_last_brace r] = upto_last_brace (d # r)"
proof -
  from assms have al: "after_last_brace (d # r) = after_last_brace r"
    by (simp add: after_last_brace_Cons)
  have "d # r = upto_last_brace (d # r) @ after_last_brace r"
    using upto_after_last_brace [of "d # r"] by (simp add: al)
  then have "take (length (d # r) - length (after_last_brace r)) (d # r)
      = upto_last_brace (d # r)"
    by (metis add_diff_cancel_right' append_eq_conv_conj length_append)
  then show ?thesis by simp
qed

lemma py_strip_id:
  assumes "s \<noteq> []" and "\<not> is_space (hd s)" and "\<not> is_space (last s)"
  shows "py_strip s = s"
proof -
  from assms have "dropWhile is_space s = s" by (cases s) simp_all
  moreover from assms have "dropWhile is_space (rev s) = rev s"
    by (cases "rev s") (simp_all add: hd_rev)
  ultimately show ?thesis by (simp add: py_strip_def)
qed

lemma upto_last_brace_ends:
  assumes "CHR ''}'' \<in> set s"
  shows "upto_last_brace s \<noteq> [] \<and> last (upto_last_brace s) = CHR ''}''"
proof -
  from assms have ne: "dropWhile (\<lambda>c. c \<noteq> CHR ''}'') (rev s) \<noteq> []" by simp
  then have "hd (dropWhile (\<lambda>c. c \<noteq> CHR ''}'') (rev s)) = CHR ''}''"
    using hd_dropWhile [of "\<lambda>c. c \<noteq> CHR ''}''" "rev s"] by simp
  with ne show ?thesis by (simp add: upto_last_brace_def last_rev)
qed

lemma py_strip_span:
  assumes "CHR ''}'' \<in> set r"
  shows "py_strip (upto_last_brace (CHR ''{'' # r)) = upto_last_brace (CHR ''{'' # r)"
proof -
  from assms have e: "upto_last_brace (CHR ''{'' # r) \<noteq> []"
    "last (upto_last_brace (CHR ''{'' # r)) = CHR ''}''"
    using upto_last_brace_ends [of "CHR ''{'' # r"] by simp_all
  from assms have "upto_last_brace (CHR ''{'' # r) = CHR ''{'' # upto_last_brace r"
    by (simp add: upto_last_brace_def dropWhile_append)
  then have h: "hd (upto_last_brace (CHR ''{'' # r)) = CHR ''{''" by simp
  show ?thesis
    by (rule py_strip_id) (simp_all add: e h is_space_def)
qed

lemma spec_label_at_iff:
  "spec_label_at t = Some b \<longleftrightarrow>
     (\<exists>w1 w2 r. t = ''Answer'' @ w1 @ CHR '':'' # w2 @ b \<and> b = CHR ''{'' # r
        \<and> (\<forall>c \<in> set w1. is_space c) \<and> (\<forall>c \<in> set w2. is_space c))"
proof
  assume "spec_label_at t = Some b"
  then show "\<exists>w1 w2 r. t = ''Answer'' @ w1 @ CHR '':'' # w2 @ b \<and> b = CHR ''{'' # r
        \<and> (\<forall>c \<in> set w1. is_space c) \<and> (\<forall>c \<in> set w2. is_space c)"
    by (elim spec_label_at_Some) blast
next
  assume "\<exists>w1 w2 r. t = ''Answer'' @ w1 @ CHR '':'' # w2 @ b \<and> b = CHR ''{'' # r
        \<and> (\<forall>c \<in> set w1. is_space c) \<and> (\<forall>c \<in> set w2. is_space c)"
  then obtain w1 w2 r where t: "t = ''Answer'' @ w1 @ CHR '':'' # w2 @ b"
    and b: "b = CHR ''{'' # r"
    and w: "\<forall>c \<in> set w1. is_space c" "\<forall>c \<in> set w2. is_space c"
    by blast
  have ns: "\<not> is_space CHR '':''" "\<not> is_space CHR ''{''" by (simp_all add: is_space_def)
  from w(1) ns(1) have d1: "dropWhile is_space (w1 @ CHR '':'' # w2 @ b) = CHR '':'' # w2 @ b"
    by (simp add: dropWhile_append2)
  from w(2) ns(2) have d2: "dropWhile is_space (w2 @ b) = b"
    by (simp add: dropWhile_append2 b)
  show "spec_label_at t = Some b"
    unfolding spec_label_at_def t by (simp add: d1 d2) (simp add: b)
qed

lemma match_here_answer_label_re:
  "match_here answer_label_re t = map_option (\<lambda>b. []) (spec_label_at t)"
proof -
  have sp1: "is_space x \<Longrightarrow> match_here (Lit CHR '':'' # p) (x # xs) = None" for x xs p
    by (auto simp: is_space_def)
  have sp2: "is_space x \<Longrightarrow> match_here [Lit CHR ''{''] (x # xs) = None" for x xs
    by (auto simp: is_space_def)
  have len: "length ''Answer'' = 6" by simp
  have lits: "match_here (map Lit ''Answer'' @ p) s =
      (if take 6 s = ''Answer'' then match_here p (drop 6 s) else None)" for p s
    using match_here_lits [of "''Answer''" p s] unfolding len .
  have colon: "match_here [Lit CHR '':'', Star is_space, Lit CHR ''{''] u =
      (case u of
         [] \<Rightarrow> None
       | c # r \<Rightarrow>
           if c = CHR '':'' then match_here [Lit CHR ''{''] (dropWhile is_space r)
           else None)" for u
    by (cases u) (simp_all add: match_here_star [OF sp2])
  have brace: "match_here [Lit CHR ''{''] v =
      (case v of [] \<Rightarrow> None | d # r \<Rightarrow> if d = CHR ''{'' then Some [] else None)" for v
    by (cases v) simp_all
  have m: "match_here answer_label_re t =
      (if take 6 t = ''Answer''
       then match_here [Lit CHR '':'', Star is_space, Lit CHR ''{'']
              (dropWhile is_space (drop 6 t))
       else None)"
    unfolding answer_label_re_def
    by (simp only: lits append_Cons append_Nil match_here_star [OF sp1])
  show ?thesis
    unfolding m spec_label_at_def
    by (simp only: colon brace)
       (simp split: list.split del: dropWhile_eq_Nil_conv)
qed

lemma re_search_answer_label_re:
  "re_search answer_label_re s = None \<longleftrightarrow> spec_first_label s = None"
proof (induction s)
  case Nil
  show ?case by (simp add: match_here_answer_label_re spec_label_at_def)
next
  case (Cons c cs)
  show ?case
    by (cases "spec_label_at (c # cs)") (simp_all add: match_here_answer_label_re Cons.IH)
qed

text \<open>
  C3 (as amended).  The extractor takes the first position of the response where
  the label stands (the label pattern of the format check occurs exactly when
  there is one) and the opening brace of that label.  If no closing brace
  follows, nothing is captured and the result is \<^verbatim>\<open>None\<close>.  Otherwise the
  captured span runs from that brace to the last closing brace of the text, not
  to the end of the text; trimming leaves it unchanged, and exactly this span is
  given to the decoder.  With two labels the span starts at the first and
  includes the second, up to the last closing brace.
\<close>

theorem extract_answer_json_span:
  \<open>extract_answer_json resp =
     (case spec_first_label resp of
        None \<Rightarrow> JNull
      | Some b \<Rightarrow>
          if CHR ''}'' \<in> set b
          then (case json_loads (upto_last_brace b) of None \<Rightarrow> JNull | Some v \<Rightarrow> v)
          else JNull)
   \<and> (re_search answer_label_re resp = None) = (spec_first_label resp = None)
   \<and> map_option group1 (re_search answer_json_re two_answers_response)
       = Some ''{"a": 1} Answer: {"b": 2}''
   \<and> extract_answer_json two_answers_response = JNull\<close>
proof -
  have span: "extract_answer_json resp =
     (case spec_first_label resp of
        None \<Rightarrow> JNull
      | Some b \<Rightarrow>
          if CHR ''}'' \<in> set b
          then (case json_loads (upto_last_brace b) of None \<Rightarrow> JNull | Some v \<Rightarrow> v)
          else JNull)"
  proof (cases "spec_first_label resp")
    case None
    then show ?thesis by (simp add: extract_answer_json_def re_search_answer_json_re)
  next
    case (Some b)
    from spec_first_label_hd [OF Some] obtain r where b: "b = CHR ''{'' # r" ..
    show ?thesis
    proof (cases "CHR ''}'' \<in> set r")
      case True
      with Some b show ?thesis
        by (simp add: extract_answer_json_def re_search_answer_json_re group1_span
            py_strip_span del: group1.simps)
    next
      case False
      with Some b show ?thesis
        by (simp add: extract_answer_json_def re_search_answer_json_re)
    qed
  qed
  have two: \<open>map_option group1 (re_search answer_json_re two_answers_response)
       = Some ''{"a": 1} Answer: {"b": 2}''
     \<and> extract_answer_json two_answers_response = JNull\<close>
    by code_simp
  from span two show ?thesis by (simp add: re_search_answer_label_re)
qed

text \<open>
  The claim as worded, a span that runs to the end of the text: in
  \<^verbatim>\<open>Answer: {"a": 1} ok\<close> the text from the first brace on, trimmed, does not
  decode, but the extractor returns the object, since its span stops at the
  brace.
\<close>

theorem extract_answer_json_trailing_text_counterexample:
  \<open>spec_first_label trailing_text_response = Some ''{"a": 1} ok''
   \<and> json_loads (py_strip ''{"a": 1} ok'') = None
   \<and> extract_answer_json trailing_text_response = JDict [(''a'', JInt 1)]\<close>
  by code_simp


end
